theory Spec2Isabelle
  imports Main "HOL-Library.Word" "HOL-Library.DAList"
begin

section \<open>Data model of cache.go\<close>

text \<open>
  The value of an entry is a Go \<^verbatim>\<open>interface{}\<close>. The type switches of the source
  distinguish thirteen numeric dynamic types; every other dynamic type (strings, structs,
  the nil interface, ...) takes the \<^verbatim>\<open>default\<close> branch and is \<open>Other\<close> here.
  Fixed-width integers are words, so \<open>+\<close> and \<open>-\<close> wrap around as in Go. The
  platform-dependent types \<^verbatim>\<open>int\<close>, \<^verbatim>\<open>uint\<close> and \<^verbatim>\<open>uintptr\<close> are taken at 64 bits
  (amd64, arm64); \<open>IntW\<close> is the type \<^verbatim>\<open>int\<close>, whose own name is taken by set
  intersection. A float is its IEEE-754 bit pattern; floating-point arithmetic itself is
  not defined here but passed in as a parameter (\<open>fpu\<close> below).
\<close>

datatype 'a obj =
    IntW "64 word"
  | Int8 "8 word"
  | Int16 "16 word"
  | Int32 "32 word"
  | Int64 "64 word"
  | Uint "64 word"
  | Uintptr "64 word"
  | Uint8 "8 word"
  | Uint16 "16 word"
  | Uint32 "32 word"
  | Uint64 "64 word"
  | Float32 "32 word"
  | Float64 "64 word"
  | Other 'a

text \<open>
  The floating-point unit: addition and subtraction at both widths and the three
  conversions the source applies to a delta (\<^verbatim>\<open>float32(n)\<close> and \<^verbatim>\<open>float64(n)\<close> for an
  \<^verbatim>\<open>int64\<close>, \<^verbatim>\<open>float32(n)\<close> for a \<^verbatim>\<open>float64\<close>).
\<close>

record fpu =
  f32_add :: "32 word \<Rightarrow> 32 word \<Rightarrow> 32 word"
  f32_sub :: "32 word \<Rightarrow> 32 word \<Rightarrow> 32 word"
  f64_add :: "64 word \<Rightarrow> 64 word \<Rightarrow> 64 word"
  f64_sub :: "64 word \<Rightarrow> 64 word \<Rightarrow> 64 word"
  f32_of_int64 :: "64 word \<Rightarrow> 32 word"
  f64_of_int64 :: "64 word \<Rightarrow> 64 word"
  f32_of_f64 :: "64 word \<Rightarrow> 32 word"

text \<open>
  \<^verbatim>\<open>type Item struct { Object interface{}; Expiration int64 }\<close>.
  Timestamps (\<^verbatim>\<open>UnixNano\<close>) and durations are nanosecond counts. They are unbounded
  integers here: Go leaves \<^verbatim>\<open>UnixNano\<close> undefined outside the \<^verbatim>\<open>int64\<close> range, and the
  model covers the range where it is defined.
\<close>

record 'a Item =
  Object :: "'a obj"
  Expiration :: int

text \<open>
  An error value made by \<^verbatim>\<open>fmt.Errorf\<close>, with its formatted message. A function
  returning \<^verbatim>\<open>error\<close> returns \<open>error option\<close> (\<open>None\<close> is \<^verbatim>\<open>nil\<close>); a function
  returning \<^verbatim>\<open>(T, error)\<close> returns \<open>error + T\<close>.
\<close>

datatype error = Errorf string

text \<open>
  The run-time panics the statements of the file can raise: a write to a map that was never
  made (\<^verbatim>\<open>assignment to entry in nil map\<close>) and a call of a \<^verbatim>\<open>nil\<close> function value
  (\<^verbatim>\<open>invalid memory address or nil pointer dereference\<close>).
\<close>

datatype panic = AssignmentToEntryInNilMap | NilPointerDereference

text \<open>
  \<^verbatim>\<open>type cache struct\<close>. \<open>items\<close> is the \<^verbatim>\<open>sync.Map\<close>: an association list with
  distinct keys, whose order is the order in which \<^verbatim>\<open>Range\<close> visits the entries (Go leaves
  that order open, and every theorem below holds for every order). The keys and values the
  methods store are always \<^verbatim>\<open>string\<close> and \<^verbatim>\<open>Item\<close>, which is the type of the list.
  \<open>counter\<close> is the \<^verbatim>\<open>atomic.Uint32\<close>. \<open>onEvicted\<close> is the registered hook (\<open>None\<close> is
  \<^verbatim>\<open>nil\<close>); a hook is named by a number, and \<open>evictions\<close> records every call made to a
  hook so far, oldest first, as (hook, key, value), the value being an \<^verbatim>\<open>interface{}\<close>
  (\<open>None\<close> is \<^verbatim>\<open>nil\<close>). The janitor goroutine only calls
  \<open>DeleteExpired\<close> on a timer and is not part of the state; every method is modelled as one
  sequential call.
\<close>

record 'a cache =
  defaultExpiration :: int
  items :: "(string, 'a Item) alist"
  counter :: "32 word"
  onEvicted :: "nat option"
  evictions :: "(nat \<times> string \<times> 'a obj option) list"

definition NoExpiration :: int where
  "NoExpiration = -1"

definition DefaultExpiration :: int where
  "DefaultExpiration = 0"

section \<open>The store primitives\<close>

text \<open>\<^verbatim>\<open>c.items.Load(k)\<close>.\<close>

definition Load :: "string \<Rightarrow> 'a cache \<Rightarrow> 'a Item option" where
  "Load k c = DAList.lookup (items c) k"

definition safeStore :: "string \<Rightarrow> 'a Item \<Rightarrow> 'a cache \<Rightarrow> 'a cache" where
  "safeStore key v c =
     c\<lparr>items := DAList.update key v (items c), counter := counter c + 1\<rparr>"

definition safeDelete :: "string \<Rightarrow> 'a cache \<Rightarrow> 'a cache" where
  "safeDelete key c =
     c\<lparr>items := DAList.delete key (items c), counter := counter c - 1\<rparr>"

text \<open>
  \<^verbatim>\<open>sync.Map.Range\<close> (the name \<open>Range\<close> is the range of a relation in HOL): the visitor
  runs once on every entry of the map as it is when the scan starts, in the order of the
  list. The state \<open>s\<close> holds the variables the visitor closure captures and writes. Every
  visitor of this file returns \<^verbatim>\<open>true\<close>, so a scan ends early only by a panic. A visitor
  of this file removes at most the key it is visiting, so no entry of the scan has been
  removed or replaced by the time it is reached.
\<close>

fun Range_sync :: "(string \<Rightarrow> 'a Item \<Rightarrow> 's \<Rightarrow> panic + 's) \<Rightarrow> (string \<times> 'a Item) list \<Rightarrow> 's \<Rightarrow> panic + 's" where
  "Range_sync f [] s = Inr s"
| "Range_sync f ((k, v) # kvs) s =
     (case f k v s of Inl p \<Rightarrow> Inl p | Inr s' \<Rightarrow> Range_sync f kvs s')"

section \<open>Expiration, Set, Add, Replace, Get\<close>

text \<open>
  Every call of \<^verbatim>\<open>time.Now().UnixNano()\<close> is a parameter \<open>now\<close> of the function that
  makes it; \<open>Add\<close> and \<open>Replace\<close> read the clock twice (in \<open>get\<close>, then in \<open>set\<close>) and
  take both readings in that order. On a path where the source does not read the clock
  (an item without expiration, a duration that is not positive) the reading is not used.
  \<open>set_unexported\<close> is the method \<^verbatim>\<open>set\<close>, whose own name is the set of a list in HOL.
\<close>

definition Expired :: "'a Item \<Rightarrow> int \<Rightarrow> bool" where
  "Expired item now =
     (if Expiration item = 0 then False else now > Expiration item)"

definition Set :: "string \<Rightarrow> 'a obj \<Rightarrow> int \<Rightarrow> int \<Rightarrow> 'a cache \<Rightarrow> 'a cache" where
  "Set k x d now c =
     (let d = (if d = DefaultExpiration then defaultExpiration c else d);
          e = (if d > 0 then now + d else 0)
      in safeStore k \<lparr>Object = x, Expiration = e\<rparr> c)"

definition set_unexported :: "string \<Rightarrow> 'a obj \<Rightarrow> int \<Rightarrow> int \<Rightarrow> 'a cache \<Rightarrow> 'a cache" where
  "set_unexported k x d now c =
     (let d = (if d = DefaultExpiration then defaultExpiration c else d);
          e = (if d > 0 then now + d else 0)
      in safeStore k \<lparr>Object = x, Expiration = e\<rparr> c)"

definition SetDefault :: "string \<Rightarrow> 'a obj \<Rightarrow> int \<Rightarrow> 'a cache \<Rightarrow> 'a cache" where
  "SetDefault k x now c = Set k x DefaultExpiration now c"

text \<open>\<open>get\<close> and \<open>Get\<close> return \<^verbatim>\<open>(interface{}, bool)\<close>; \<open>None\<close> is the \<^verbatim>\<open>nil\<close> value.\<close>

definition get :: "string \<Rightarrow> int \<Rightarrow> 'a cache \<Rightarrow> 'a obj option \<times> bool" where
  "get k now c =
     (case Load k c of
        None \<Rightarrow> (None, False)
      | Some item \<Rightarrow>
          if Expiration item > 0 then
            (if now > Expiration item then (None, False)
             else (Some (Object item), True))
          else (Some (Object item), True))"

definition Get :: "string \<Rightarrow> int \<Rightarrow> 'a cache \<Rightarrow> 'a obj option \<times> bool" where
  "Get k now c =
     (case Load k c of
        None \<Rightarrow> (None, False)
      | Some item \<Rightarrow>
          if Expiration item > 0 then
            (if now > Expiration item then (None, False)
             else (Some (Object item), True))
          else (Some (Object item), True))"

text \<open>
  \<open>GetWithExpiration\<close> returns the expiration as a \<^verbatim>\<open>time.Time\<close>: \<open>Some e\<close> is
  \<^verbatim>\<open>time.Unix(0, e)\<close> and \<open>None\<close> the zero \<^verbatim>\<open>time.Time{}\<close>.
\<close>

definition GetWithExpiration :: "string \<Rightarrow> int \<Rightarrow> 'a cache \<Rightarrow> 'a obj option \<times> int option \<times> bool" where
  "GetWithExpiration k now c =
     (case Load k c of
        None \<Rightarrow> (None, None, False)
      | Some item \<Rightarrow>
          if Expiration item > 0 then
            (if now > Expiration item then (None, None, False)
             else (Some (Object item), Some (Expiration item), True))
          else (Some (Object item), None, True))"

definition Add :: "string \<Rightarrow> 'a obj \<Rightarrow> int \<Rightarrow> int \<Rightarrow> int \<Rightarrow> 'a cache \<Rightarrow> error option \<times> 'a cache" where
  "Add k x d now1 now2 c =
     (let (_, found) = get k now1 c
      in if found then (Some (Errorf (''Item '' @ k @ '' already exists'')), c)
         else (None, set_unexported k x d now2 c))"

definition Replace :: "string \<Rightarrow> 'a obj \<Rightarrow> int \<Rightarrow> int \<Rightarrow> int \<Rightarrow> 'a cache \<Rightarrow> error option \<times> 'a cache" where
  "Replace k x d now1 now2 c =
     (let (_, found) = get k now1 c
      in if \<not> found then (Some (Errorf (''Item '' @ k @ '' doesn't exist'')), c)
         else (None, set_unexported k x d now2 c))"

section \<open>Increment and Decrement\<close>

text \<open>
  The test \<^verbatim>\<open>!found || item.(Item).Expired()\<close> short-circuits: \<open>Expired\<close> is evaluated
  only on an item that was found. \<^verbatim>\<open>v := item.(Item)\<close> copies the struct, so the write
  to \<^verbatim>\<open>v.Object\<close> changes the copy that is then stored. A conversion \<^verbatim>\<open>T(n)\<close> of the
  \<^verbatim>\<open>int64\<close> delta to an integer type sign-extends and truncates, which is \<open>scast\<close>.
\<close>


definition Increment :: "fpu \<Rightarrow> string \<Rightarrow> 64 word \<Rightarrow> int \<Rightarrow> 'a cache \<Rightarrow> error option \<times> 'a cache" where
  "Increment fp k n now c =
     (case Load k c of
        None \<Rightarrow> (Some (Errorf (''Item '' @ k @ '' not found'')), c)
      | Some v \<Rightarrow>
          if Expired v now then (Some (Errorf (''Item '' @ k @ '' not found'')), c)
          else (case Object v of
                  IntW x \<Rightarrow> (None, safeStore k (v\<lparr>Object := IntW (x + scast n)\<rparr>) c)
                | Int8 x \<Rightarrow> (None, safeStore k (v\<lparr>Object := Int8 (x + scast n)\<rparr>) c)
                | Int16 x \<Rightarrow> (None, safeStore k (v\<lparr>Object := Int16 (x + scast n)\<rparr>) c)
                | Int32 x \<Rightarrow> (None, safeStore k (v\<lparr>Object := Int32 (x + scast n)\<rparr>) c)
                | Int64 x \<Rightarrow> (None, safeStore k (v\<lparr>Object := Int64 (x + n)\<rparr>) c)
                | Uint x \<Rightarrow> (None, safeStore k (v\<lparr>Object := Uint (x + scast n)\<rparr>) c)
                | Uintptr x \<Rightarrow> (None, safeStore k (v\<lparr>Object := Uintptr (x + scast n)\<rparr>) c)
                | Uint8 x \<Rightarrow> (None, safeStore k (v\<lparr>Object := Uint8 (x + scast n)\<rparr>) c)
                | Uint16 x \<Rightarrow> (None, safeStore k (v\<lparr>Object := Uint16 (x + scast n)\<rparr>) c)
                | Uint32 x \<Rightarrow> (None, safeStore k (v\<lparr>Object := Uint32 (x + scast n)\<rparr>) c)
                | Uint64 x \<Rightarrow> (None, safeStore k (v\<lparr>Object := Uint64 (x + scast n)\<rparr>) c)
                | Float32 x \<Rightarrow> (None, safeStore k (v\<lparr>Object := Float32 (f32_add fp x (f32_of_int64 fp n))\<rparr>) c)
                | Float64 x \<Rightarrow> (None, safeStore k (v\<lparr>Object := Float64 (f64_add fp x (f64_of_int64 fp n))\<rparr>) c)
                | Other _ \<Rightarrow> (Some (Errorf (''The value for '' @ k @ '' is not an integer'')), c)))"

definition IncrementFloat :: "fpu \<Rightarrow> string \<Rightarrow> 64 word \<Rightarrow> int \<Rightarrow> 'a cache \<Rightarrow> error option \<times> 'a cache" where
  "IncrementFloat fp k n now c =
     (case Load k c of
        None \<Rightarrow> (Some (Errorf (''Item '' @ k @ '' not found'')), c)
      | Some v \<Rightarrow>
          if Expired v now then (Some (Errorf (''Item '' @ k @ '' not found'')), c)
          else (case Object v of
                  Float32 x \<Rightarrow> (None, safeStore k (v\<lparr>Object := Float32 (f32_add fp x (f32_of_f64 fp n))\<rparr>) c)
                | Float64 x \<Rightarrow> (None, safeStore k (v\<lparr>Object := Float64 (f64_add fp x n)\<rparr>) c)
                | _ \<Rightarrow> (Some (Errorf (''The value for '' @ k @ '' does not have type float32 or float64'')), c)))"

definition IncrementInt :: "string \<Rightarrow> 64 word \<Rightarrow> int \<Rightarrow> 'a cache \<Rightarrow> (error + 64 word) \<times> 'a cache" where
  "IncrementInt k n now c =
     (case Load k c of
        None \<Rightarrow> (Inl (Errorf (''Item '' @ k @ '' not found'')), c)
      | Some v \<Rightarrow>
          if Expired v now then (Inl (Errorf (''Item '' @ k @ '' not found'')), c)
          else (case Object v of
                  IntW rv \<Rightarrow>
                    (let nv = rv + n
                     in (Inr nv, safeStore k (v\<lparr>Object := IntW nv\<rparr>) c))
                | _ \<Rightarrow> (Inl (Errorf (''The value for '' @ k @ '' is not an int'')), c)))"

definition IncrementInt8 :: "string \<Rightarrow> 8 word \<Rightarrow> int \<Rightarrow> 'a cache \<Rightarrow> (error + 8 word) \<times> 'a cache" where
  "IncrementInt8 k n now c =
     (case Load k c of
        None \<Rightarrow> (Inl (Errorf (''Item '' @ k @ '' not found'')), c)
      | Some v \<Rightarrow>
          if Expired v now then (Inl (Errorf (''Item '' @ k @ '' not found'')), c)
          else (case Object v of
                  Int8 rv \<Rightarrow>
                    (let nv = rv + n
                     in (Inr nv, safeStore k (v\<lparr>Object := Int8 nv\<rparr>) c))
                | _ \<Rightarrow> (Inl (Errorf (''The value for '' @ k @ '' is not an int8'')), c)))"

definition IncrementInt16 :: "string \<Rightarrow> 16 word \<Rightarrow> int \<Rightarrow> 'a cache \<Rightarrow> (error + 16 word) \<times> 'a cache" where
  "IncrementInt16 k n now c =
     (case Load k c of
        None \<Rightarrow> (Inl (Errorf (''Item '' @ k @ '' not found'')), c)
      | Some v \<Rightarrow>
          if Expired v now then (Inl (Errorf (''Item '' @ k @ '' not found'')), c)
          else (case Object v of
                  Int16 rv \<Rightarrow>
                    (let nv = rv + n
                     in (Inr nv, safeStore k (v\<lparr>Object := Int16 nv\<rparr>) c))
                | _ \<Rightarrow> (Inl (Errorf (''The value for '' @ k @ '' is not an int16'')), c)))"

definition IncrementInt32 :: "string \<Rightarrow> 32 word \<Rightarrow> int \<Rightarrow> 'a cache \<Rightarrow> (error + 32 word) \<times> 'a cache" where
  "IncrementInt32 k n now c =
     (case Load k c of
        None \<Rightarrow> (Inl (Errorf (''Item '' @ k @ '' not found'')), c)
      | Some v \<Rightarrow>
          if Expired v now then (Inl (Errorf (''Item '' @ k @ '' not found'')), c)
          else (case Object v of
                  Int32 rv \<Rightarrow>
                    (let nv = rv + n
                     in (Inr nv, safeStore k (v\<lparr>Object := Int32 nv\<rparr>) c))
                | _ \<Rightarrow> (Inl (Errorf (''The value for '' @ k @ '' is not an int32'')), c)))"

definition IncrementInt64 :: "string \<Rightarrow> 64 word \<Rightarrow> int \<Rightarrow> 'a cache \<Rightarrow> (error + 64 word) \<times> 'a cache" where
  "IncrementInt64 k n now c =
     (case Load k c of
        None \<Rightarrow> (Inl (Errorf (''Item '' @ k @ '' not found'')), c)
      | Some v \<Rightarrow>
          if Expired v now then (Inl (Errorf (''Item '' @ k @ '' not found'')), c)
          else (case Object v of
                  Int64 rv \<Rightarrow>
                    (let nv = rv + n
                     in (Inr nv, safeStore k (v\<lparr>Object := Int64 nv\<rparr>) c))
                | _ \<Rightarrow> (Inl (Errorf (''The value for '' @ k @ '' is not an int64'')), c)))"

definition IncrementUint :: "string \<Rightarrow> 64 word \<Rightarrow> int \<Rightarrow> 'a cache \<Rightarrow> (error + 64 word) \<times> 'a cache" where
  "IncrementUint k n now c =
     (case Load k c of
        None \<Rightarrow> (Inl (Errorf (''Item '' @ k @ '' not found'')), c)
      | Some v \<Rightarrow>
          if Expired v now then (Inl (Errorf (''Item '' @ k @ '' not found'')), c)
          else (case Object v of
                  Uint rv \<Rightarrow>
                    (let nv = rv + n
                     in (Inr nv, safeStore k (v\<lparr>Object := Uint nv\<rparr>) c))
                | _ \<Rightarrow> (Inl (Errorf (''The value for '' @ k @ '' is not an uint'')), c)))"

definition IncrementUintptr :: "string \<Rightarrow> 64 word \<Rightarrow> int \<Rightarrow> 'a cache \<Rightarrow> (error + 64 word) \<times> 'a cache" where
  "IncrementUintptr k n now c =
     (case Load k c of
        None \<Rightarrow> (Inl (Errorf (''Item '' @ k @ '' not found'')), c)
      | Some v \<Rightarrow>
          if Expired v now then (Inl (Errorf (''Item '' @ k @ '' not found'')), c)
          else (case Object v of
                  Uintptr rv \<Rightarrow>
                    (let nv = rv + n
                     in (Inr nv, safeStore k (v\<lparr>Object := Uintptr nv\<rparr>) c))
                | _ \<Rightarrow> (Inl (Errorf (''The value for '' @ k @ '' is not an uintptr'')), c)))"

definition IncrementUint8 :: "string \<Rightarrow> 8 word \<Rightarrow> int \<Rightarrow> 'a cache \<Rightarrow> (error + 8 word) \<times> 'a cache" where
  "IncrementUint8 k n now c =
     (case Load k c of
        None \<Rightarrow> (Inl (Errorf (''Item '' @ k @ '' not found'')), c)
      | Some v \<Rightarrow>
          if Expired v now then (Inl (Errorf (''Item '' @ k @ '' not found'')), c)
          else (case Object v of
                  Uint8 rv \<Rightarrow>
                    (let nv = rv + n
                     in (Inr nv, safeStore k (v\<lparr>Object := Uint8 nv\<rparr>) c))
                | _ \<Rightarrow> (Inl (Errorf (''The value for '' @ k @ '' is not an uint8'')), c)))"

definition IncrementUint16 :: "string \<Rightarrow> 16 word \<Rightarrow> int \<Rightarrow> 'a cache \<Rightarrow> (error + 16 word) \<times> 'a cache" where
  "IncrementUint16 k n now c =
     (case Load k c of
        None \<Rightarrow> (Inl (Errorf (''Item '' @ k @ '' not found'')), c)
      | Some v \<Rightarrow>
          if Expired v now then (Inl (Errorf (''Item '' @ k @ '' not found'')), c)
          else (case Object v of
                  Uint16 rv \<Rightarrow>
                    (let nv = rv + n
                     in (Inr nv, safeStore k (v\<lparr>Object := Uint16 nv\<rparr>) c))
                | _ \<Rightarrow> (Inl (Errorf (''The value for '' @ k @ '' is not an uint16'')), c)))"

definition IncrementUint32 :: "string \<Rightarrow> 32 word \<Rightarrow> int \<Rightarrow> 'a cache \<Rightarrow> (error + 32 word) \<times> 'a cache" where
  "IncrementUint32 k n now c =
     (case Load k c of
        None \<Rightarrow> (Inl (Errorf (''Item '' @ k @ '' not found'')), c)
      | Some v \<Rightarrow>
          if Expired v now then (Inl (Errorf (''Item '' @ k @ '' not found'')), c)
          else (case Object v of
                  Uint32 rv \<Rightarrow>
                    (let nv = rv + n
                     in (Inr nv, safeStore k (v\<lparr>Object := Uint32 nv\<rparr>) c))
                | _ \<Rightarrow> (Inl (Errorf (''The value for '' @ k @ '' is not an uint32'')), c)))"

definition IncrementUint64 :: "string \<Rightarrow> 64 word \<Rightarrow> int \<Rightarrow> 'a cache \<Rightarrow> (error + 64 word) \<times> 'a cache" where
  "IncrementUint64 k n now c =
     (case Load k c of
        None \<Rightarrow> (Inl (Errorf (''Item '' @ k @ '' not found'')), c)
      | Some v \<Rightarrow>
          if Expired v now then (Inl (Errorf (''Item '' @ k @ '' not found'')), c)
          else (case Object v of
                  Uint64 rv \<Rightarrow>
                    (let nv = rv + n
                     in (Inr nv, safeStore k (v\<lparr>Object := Uint64 nv\<rparr>) c))
                | _ \<Rightarrow> (Inl (Errorf (''The value for '' @ k @ '' is not an uint64'')), c)))"

definition IncrementFloat32 :: "fpu \<Rightarrow> string \<Rightarrow> 32 word \<Rightarrow> int \<Rightarrow> 'a cache \<Rightarrow> (error + 32 word) \<times> 'a cache" where
  "IncrementFloat32 fp k n now c =
     (case Load k c of
        None \<Rightarrow> (Inl (Errorf (''Item '' @ k @ '' not found'')), c)
      | Some v \<Rightarrow>
          if Expired v now then (Inl (Errorf (''Item '' @ k @ '' not found'')), c)
          else (case Object v of
                  Float32 rv \<Rightarrow>
                    (let nv = f32_add fp rv n
                     in (Inr nv, safeStore k (v\<lparr>Object := Float32 nv\<rparr>) c))
                | _ \<Rightarrow> (Inl (Errorf (''The value for '' @ k @ '' is not an float32'')), c)))"

definition IncrementFloat64 :: "fpu \<Rightarrow> string \<Rightarrow> 64 word \<Rightarrow> int \<Rightarrow> 'a cache \<Rightarrow> (error + 64 word) \<times> 'a cache" where
  "IncrementFloat64 fp k n now c =
     (case Load k c of
        None \<Rightarrow> (Inl (Errorf (''Item '' @ k @ '' not found'')), c)
      | Some v \<Rightarrow>
          if Expired v now then (Inl (Errorf (''Item '' @ k @ '' not found'')), c)
          else (case Object v of
                  Float64 rv \<Rightarrow>
                    (let nv = f64_add fp rv n
                     in (Inr nv, safeStore k (v\<lparr>Object := Float64 nv\<rparr>) c))
                | _ \<Rightarrow> (Inl (Errorf (''The value for '' @ k @ '' is not an float64'')), c)))"

definition Decrement :: "fpu \<Rightarrow> string \<Rightarrow> 64 word \<Rightarrow> int \<Rightarrow> 'a cache \<Rightarrow> error option \<times> 'a cache" where
  "Decrement fp k n now c =
     (case Load k c of
        None \<Rightarrow> (Some (Errorf (''Item not found'')), c)
      | Some v \<Rightarrow>
          if Expired v now then (Some (Errorf (''Item not found'')), c)
          else (case Object v of
                  IntW x \<Rightarrow> (None, safeStore k (v\<lparr>Object := IntW (x - scast n)\<rparr>) c)
                | Int8 x \<Rightarrow> (None, safeStore k (v\<lparr>Object := Int8 (x - scast n)\<rparr>) c)
                | Int16 x \<Rightarrow> (None, safeStore k (v\<lparr>Object := Int16 (x - scast n)\<rparr>) c)
                | Int32 x \<Rightarrow> (None, safeStore k (v\<lparr>Object := Int32 (x - scast n)\<rparr>) c)
                | Int64 x \<Rightarrow> (None, safeStore k (v\<lparr>Object := Int64 (x - n)\<rparr>) c)
                | Uint x \<Rightarrow> (None, safeStore k (v\<lparr>Object := Uint (x - scast n)\<rparr>) c)
                | Uintptr x \<Rightarrow> (None, safeStore k (v\<lparr>Object := Uintptr (x - scast n)\<rparr>) c)
                | Uint8 x \<Rightarrow> (None, safeStore k (v\<lparr>Object := Uint8 (x - scast n)\<rparr>) c)
                | Uint16 x \<Rightarrow> (None, safeStore k (v\<lparr>Object := Uint16 (x - scast n)\<rparr>) c)
                | Uint32 x \<Rightarrow> (None, safeStore k (v\<lparr>Object := Uint32 (x - scast n)\<rparr>) c)
                | Uint64 x \<Rightarrow> (None, safeStore k (v\<lparr>Object := Uint64 (x - scast n)\<rparr>) c)
                | Float32 x \<Rightarrow> (None, safeStore k (v\<lparr>Object := Float32 (f32_sub fp x (f32_of_int64 fp n))\<rparr>) c)
                | Float64 x \<Rightarrow> (None, safeStore k (v\<lparr>Object := Float64 (f64_sub fp x (f64_of_int64 fp n))\<rparr>) c)
                | Other _ \<Rightarrow> (Some (Errorf (''The value for '' @ k @ '' is not an integer'')), c)))"

definition DecrementFloat :: "fpu \<Rightarrow> string \<Rightarrow> 64 word \<Rightarrow> int \<Rightarrow> 'a cache \<Rightarrow> error option \<times> 'a cache" where
  "DecrementFloat fp k n now c =
     (case Load k c of
        None \<Rightarrow> (Some (Errorf (''Item '' @ k @ '' not found'')), c)
      | Some v \<Rightarrow>
          if Expired v now then (Some (Errorf (''Item '' @ k @ '' not found'')), c)
          else (case Object v of
                  Float32 x \<Rightarrow> (None, safeStore k (v\<lparr>Object := Float32 (f32_sub fp x (f32_of_f64 fp n))\<rparr>) c)
                | Float64 x \<Rightarrow> (None, safeStore k (v\<lparr>Object := Float64 (f64_sub fp x n)\<rparr>) c)
                | _ \<Rightarrow> (Some (Errorf (''The value for '' @ k @ '' does not have type float32 or float64'')), c)))"

definition DecrementInt :: "string \<Rightarrow> 64 word \<Rightarrow> int \<Rightarrow> 'a cache \<Rightarrow> (error + 64 word) \<times> 'a cache" where
  "DecrementInt k n now c =
     (case Load k c of
        None \<Rightarrow> (Inl (Errorf (''Item '' @ k @ '' not found'')), c)
      | Some v \<Rightarrow>
          if Expired v now then (Inl (Errorf (''Item '' @ k @ '' not found'')), c)
          else (case Object v of
                  IntW rv \<Rightarrow>
                    (let nv = rv - n
                     in (Inr nv, safeStore k (v\<lparr>Object := IntW nv\<rparr>) c))
                | _ \<Rightarrow> (Inl (Errorf (''The value for '' @ k @ '' is not an int'')), c)))"

definition DecrementInt8 :: "string \<Rightarrow> 8 word \<Rightarrow> int \<Rightarrow> 'a cache \<Rightarrow> (error + 8 word) \<times> 'a cache" where
  "DecrementInt8 k n now c =
     (case Load k c of
        None \<Rightarrow> (Inl (Errorf (''Item '' @ k @ '' not found'')), c)
      | Some v \<Rightarrow>
          if Expired v now then (Inl (Errorf (''Item '' @ k @ '' not found'')), c)
          else (case Object v of
                  Int8 rv \<Rightarrow>
                    (let nv = rv - n
                     in (Inr nv, safeStore k (v\<lparr>Object := Int8 nv\<rparr>) c))
                | _ \<Rightarrow> (Inl (Errorf (''The value for '' @ k @ '' is not an int8'')), c)))"

definition DecrementInt16 :: "string \<Rightarrow> 16 word \<Rightarrow> int \<Rightarrow> 'a cache \<Rightarrow> (error + 16 word) \<times> 'a cache" where
  "DecrementInt16 k n now c =
     (case Load k c of
        None \<Rightarrow> (Inl (Errorf (''Item '' @ k @ '' not found'')), c)
      | Some v \<Rightarrow>
          if Expired v now then (Inl (Errorf (''Item '' @ k @ '' not found'')), c)
          else (case Object v of
                  Int16 rv \<Rightarrow>
                    (let nv = rv - n
                     in (Inr nv, safeStore k (v\<lparr>Object := Int16 nv\<rparr>) c))
                | _ \<Rightarrow> (Inl (Errorf (''The value for '' @ k @ '' is not an int16'')), c)))"

definition DecrementInt32 :: "string \<Rightarrow> 32 word \<Rightarrow> int \<Rightarrow> 'a cache \<Rightarrow> (error + 32 word) \<times> 'a cache" where
  "DecrementInt32 k n now c =
     (case Load k c of
        None \<Rightarrow> (Inl (Errorf (''Item '' @ k @ '' not found'')), c)
      | Some v \<Rightarrow>
          if Expired v now then (Inl (Errorf (''Item '' @ k @ '' not found'')), c)
          else (case Object v of
                  Int32 rv \<Rightarrow>
                    (let nv = rv - n
                     in (Inr nv, safeStore k (v\<lparr>Object := Int32 nv\<rparr>) c))
                | _ \<Rightarrow> (Inl (Errorf (''The value for '' @ k @ '' is not an int32'')), c)))"

definition DecrementInt64 :: "string \<Rightarrow> 64 word \<Rightarrow> int \<Rightarrow> 'a cache \<Rightarrow> (error + 64 word) \<times> 'a cache" where
  "DecrementInt64 k n now c =
     (case Load k c of
        None \<Rightarrow> (Inl (Errorf (''Item '' @ k @ '' not found'')), c)
      | Some v \<Rightarrow>
          if Expired v now then (Inl (Errorf (''Item '' @ k @ '' not found'')), c)
          else (case Object v of
                  Int64 rv \<Rightarrow>
                    (let nv = rv - n
                     in (Inr nv, safeStore k (v\<lparr>Object := Int64 nv\<rparr>) c))
                | _ \<Rightarrow> (Inl (Errorf (''The value for '' @ k @ '' is not an int64'')), c)))"

definition DecrementUint :: "string \<Rightarrow> 64 word \<Rightarrow> int \<Rightarrow> 'a cache \<Rightarrow> (error + 64 word) \<times> 'a cache" where
  "DecrementUint k n now c =
     (case Load k c of
        None \<Rightarrow> (Inl (Errorf (''Item '' @ k @ '' not found'')), c)
      | Some v \<Rightarrow>
          if Expired v now then (Inl (Errorf (''Item '' @ k @ '' not found'')), c)
          else (case Object v of
                  Uint rv \<Rightarrow>
                    (let nv = rv - n
                     in (Inr nv, safeStore k (v\<lparr>Object := Uint nv\<rparr>) c))
                | _ \<Rightarrow> (Inl (Errorf (''The value for '' @ k @ '' is not an uint'')), c)))"

definition DecrementUintptr :: "string \<Rightarrow> 64 word \<Rightarrow> int \<Rightarrow> 'a cache \<Rightarrow> (error + 64 word) \<times> 'a cache" where
  "DecrementUintptr k n now c =
     (case Load k c of
        None \<Rightarrow> (Inl (Errorf (''Item '' @ k @ '' not found'')), c)
      | Some v \<Rightarrow>
          if Expired v now then (Inl (Errorf (''Item '' @ k @ '' not found'')), c)
          else (case Object v of
                  Uintptr rv \<Rightarrow>
                    (let nv = rv - n
                     in (Inr nv, safeStore k (v\<lparr>Object := Uintptr nv\<rparr>) c))
                | _ \<Rightarrow> (Inl (Errorf (''The value for '' @ k @ '' is not an uintptr'')), c)))"

definition DecrementUint8 :: "string \<Rightarrow> 8 word \<Rightarrow> int \<Rightarrow> 'a cache \<Rightarrow> (error + 8 word) \<times> 'a cache" where
  "DecrementUint8 k n now c =
     (case Load k c of
        None \<Rightarrow> (Inl (Errorf (''Item '' @ k @ '' not found'')), c)
      | Some v \<Rightarrow>
          if Expired v now then (Inl (Errorf (''Item '' @ k @ '' not found'')), c)
          else (case Object v of
                  Uint8 rv \<Rightarrow>
                    (let nv = rv - n
                     in (Inr nv, safeStore k (v\<lparr>Object := Uint8 nv\<rparr>) c))
                | _ \<Rightarrow> (Inl (Errorf (''The value for '' @ k @ '' is not an uint8'')), c)))"

definition DecrementUint16 :: "string \<Rightarrow> 16 word \<Rightarrow> int \<Rightarrow> 'a cache \<Rightarrow> (error + 16 word) \<times> 'a cache" where
  "DecrementUint16 k n now c =
     (case Load k c of
        None \<Rightarrow> (Inl (Errorf (''Item '' @ k @ '' not found'')), c)
      | Some v \<Rightarrow>
          if Expired v now then (Inl (Errorf (''Item '' @ k @ '' not found'')), c)
          else (case Object v of
                  Uint16 rv \<Rightarrow>
                    (let nv = rv - n
                     in (Inr nv, safeStore k (v\<lparr>Object := Uint16 nv\<rparr>) c))
                | _ \<Rightarrow> (Inl (Errorf (''The value for '' @ k @ '' is not an uint16'')), c)))"

definition DecrementUint32 :: "string \<Rightarrow> 32 word \<Rightarrow> int \<Rightarrow> 'a cache \<Rightarrow> (error + 32 word) \<times> 'a cache" where
  "DecrementUint32 k n now c =
     (case Load k c of
        None \<Rightarrow> (Inl (Errorf (''Item '' @ k @ '' not found'')), c)
      | Some v \<Rightarrow>
          if Expired v now then (Inl (Errorf (''Item '' @ k @ '' not found'')), c)
          else (case Object v of
                  Uint32 rv \<Rightarrow>
                    (let nv = rv - n
                     in (Inr nv, safeStore k (v\<lparr>Object := Uint32 nv\<rparr>) c))
                | _ \<Rightarrow> (Inl (Errorf (''The value for '' @ k @ '' is not an uint32'')), c)))"

definition DecrementUint64 :: "string \<Rightarrow> 64 word \<Rightarrow> int \<Rightarrow> 'a cache \<Rightarrow> (error + 64 word) \<times> 'a cache" where
  "DecrementUint64 k n now c =
     (case Load k c of
        None \<Rightarrow> (Inl (Errorf (''Item '' @ k @ '' not found'')), c)
      | Some v \<Rightarrow>
          if Expired v now then (Inl (Errorf (''Item '' @ k @ '' not found'')), c)
          else (case Object v of
                  Uint64 rv \<Rightarrow>
                    (let nv = rv - n
                     in (Inr nv, safeStore k (v\<lparr>Object := Uint64 nv\<rparr>) c))
                | _ \<Rightarrow> (Inl (Errorf (''The value for '' @ k @ '' is not an uint64'')), c)))"

definition DecrementFloat32 :: "fpu \<Rightarrow> string \<Rightarrow> 32 word \<Rightarrow> int \<Rightarrow> 'a cache \<Rightarrow> (error + 32 word) \<times> 'a cache" where
  "DecrementFloat32 fp k n now c =
     (case Load k c of
        None \<Rightarrow> (Inl (Errorf (''Item '' @ k @ '' not found'')), c)
      | Some v \<Rightarrow>
          if Expired v now then (Inl (Errorf (''Item '' @ k @ '' not found'')), c)
          else (case Object v of
                  Float32 rv \<Rightarrow>
                    (let nv = f32_sub fp rv n
                     in (Inr nv, safeStore k (v\<lparr>Object := Float32 nv\<rparr>) c))
                | _ \<Rightarrow> (Inl (Errorf (''The value for '' @ k @ '' is not an float32'')), c)))"

definition DecrementFloat64 :: "fpu \<Rightarrow> string \<Rightarrow> 64 word \<Rightarrow> int \<Rightarrow> 'a cache \<Rightarrow> (error + 64 word) \<times> 'a cache" where
  "DecrementFloat64 fp k n now c =
     (case Load k c of
        None \<Rightarrow> (Inl (Errorf (''Item '' @ k @ '' not found'')), c)
      | Some v \<Rightarrow>
          if Expired v now then (Inl (Errorf (''Item '' @ k @ '' not found'')), c)
          else (case Object v of
                  Float64 rv \<Rightarrow>
                    (let nv = f64_sub fp rv n
                     in (Inr nv, safeStore k (v\<lparr>Object := Float64 nv\<rparr>) c))
                | _ \<Rightarrow> (Inl (Errorf (''The value for '' @ k @ '' is not an float64'')), c)))"

section \<open>Delete, DeleteExpired, OnEvicted, Items, ItemCount, Flush\<close>

text \<open>
  The call \<^verbatim>\<open>c.onEvicted(k, v)\<close>: it panics when no hook is registered, and is recorded in
  \<open>evictions\<close> otherwise. What the hook itself does is outside the cache; a hook that calls
  back into the cache is not modelled.
\<close>

definition call_onEvicted :: "string \<Rightarrow> 'a obj option \<Rightarrow> 'a cache \<Rightarrow> panic + 'a cache" where
  "call_onEvicted k v c =
     (case onEvicted c of
        None \<Rightarrow> Inl NilPointerDereference
      | Some h \<Rightarrow> Inr (c\<lparr>evictions := evictions c @ [(h, k, v)]\<rparr>))"

definition delete :: "string \<Rightarrow> 'a cache \<Rightarrow> ('a obj option \<times> bool) \<times> 'a cache" where
  "delete k c =
     (if onEvicted c \<noteq> None then
        (case Load k c of
           Some v \<Rightarrow> ((Some (Object v), True), safeDelete k c)
         | None \<Rightarrow> ((None, False), safeDelete k c))
      else ((None, False), safeDelete k c))"

definition Delete :: "string \<Rightarrow> 'a cache \<Rightarrow> panic + 'a cache" where
  "Delete k c =
     (let ((v, evicted), c') = delete k c
      in if evicted then call_onEvicted k v c' else Inr c')"

text \<open>\<^verbatim>\<open>type keyAndValue struct { key string; value interface{} }\<close>.\<close>

type_synonym 'a keyAndValue = "string \<times> 'a obj option"

text \<open>
  The closure passed to \<^verbatim>\<open>Range\<close> in \<open>DeleteExpired\<close> captures \<^verbatim>\<open>c\<close>, \<^verbatim>\<open>now\<close> and
  \<^verbatim>\<open>evictedItems\<close>; the loop after the scan calls the hook on each collected pair.
\<close>

definition DeleteExpired_visit :: "int \<Rightarrow> string \<Rightarrow> 'a Item \<Rightarrow> 'a cache \<times> 'a keyAndValue list \<Rightarrow> panic + 'a cache \<times> 'a keyAndValue list" where
  "DeleteExpired_visit now k v s =
     (let (c, evictedItems) = s
      in if Expiration v > 0 \<and> now > Expiration v then
           (let ((ov, evicted), c') = delete k c
            in if evicted then Inr (c', evictedItems @ [(k, ov)])
               else Inr (c', evictedItems))
         else Inr (c, evictedItems))"

fun call_each :: "'a keyAndValue list \<Rightarrow> 'a cache \<Rightarrow> panic + 'a cache" where
  "call_each [] c = Inr c"
| "call_each ((key, val) # kvs) c =
     (case call_onEvicted key val c of Inl p \<Rightarrow> Inl p | Inr c' \<Rightarrow> call_each kvs c')"

definition DeleteExpired :: "int \<Rightarrow> 'a cache \<Rightarrow> panic + 'a cache" where
  "DeleteExpired now c =
     (case Range_sync (DeleteExpired_visit now) (DAList.impl_of (items c)) (c, []) of
        Inl p \<Rightarrow> Inl p
      | Inr (c', evictedItems) \<Rightarrow> call_each evictedItems c')"

definition OnEvicted :: "nat option \<Rightarrow> 'a cache \<Rightarrow> 'a cache" where
  "OnEvicted f c = c\<lparr>onEvicted := f\<rparr>"

text \<open>
  A Go \<^verbatim>\<open>map[string]Item\<close>: \<open>None\<close> is the \<^verbatim>\<open>nil\<close> map, which reads as empty and panics
  on assignment; \<open>Some f\<close> is a map made by \<^verbatim>\<open>make\<close> or a literal. \<open>map_assign\<close> is the
  statement \<^verbatim>\<open>m[k] = v\<close>.
\<close>

type_synonym 'a gomap = "(string \<rightharpoonup> 'a Item) option"

definition map_assign :: "string \<Rightarrow> 'a Item \<Rightarrow> 'a gomap \<Rightarrow> panic + 'a gomap" where
  "map_assign k v m =
     (case m of
        None \<Rightarrow> Inl AssignmentToEntryInNilMap
      | Some f \<Rightarrow> Inr (Some (f(k \<mapsto> v))))"

text \<open>
  The closure passed to \<^verbatim>\<open>Range\<close> in \<open>Items\<close> captures \<^verbatim>\<open>now\<close> and \<^verbatim>\<open>m\<close>. \<open>Items\<close>
  declares \<^verbatim>\<open>var m map[string]Item\<close> and never makes it, so the scan starts on the
  \<^verbatim>\<open>nil\<close> map. \<open>Items\<close> has no write to the cache and returns no new cache.
\<close>

definition Items_visit :: "int \<Rightarrow> string \<Rightarrow> 'a Item \<Rightarrow> 'a gomap \<Rightarrow> panic + 'a gomap" where
  "Items_visit now k v m =
     (if Expiration v > 0 then
        (if now > Expiration v then Inr m else map_assign k v m)
      else map_assign k v m)"

definition Items :: "int \<Rightarrow> 'a cache \<Rightarrow> panic + 'a gomap" where
  "Items now c = Range_sync (Items_visit now) (DAList.impl_of (items c)) None"

definition ItemCount :: "'a cache \<Rightarrow> 32 word" where
  "ItemCount c = counter c"

definition Flush_visit :: "string \<Rightarrow> 'a Item \<Rightarrow> 'a cache \<Rightarrow> panic + 'a cache" where
  "Flush_visit key val c = Inr (safeDelete key c)"

definition Flush :: "'a cache \<Rightarrow> panic + 'a cache" where
  "Flush c = Range_sync Flush_visit (DAList.impl_of (items c)) c"

text \<open>
  \<open>newCache\<close> and \<open>New\<close>, without the janitor: the cache \<open>New\<close> returns, read before the
  first tick of the timer.
\<close>

definition newCache :: "int \<Rightarrow> (string, 'a Item) alist \<Rightarrow> 'a cache" where
  "newCache de m =
     \<lparr>defaultExpiration = (if de = 0 then -1 else de), items = m, counter = 0,
      onEvicted = None, evictions = []\<rparr>"

definition New :: "int \<Rightarrow> int \<Rightarrow> 'a cache" where
  "New de ci = newCache de DAList.empty"

section \<open>Notions the theorems are stated with\<close>

text \<open>
  The test \<^verbatim>\<open>Expiration > 0 && now > Expiration\<close> that \<open>Get\<close>, \<open>get\<close>,
  \<open>GetWithExpiration\<close>, \<open>DeleteExpired\<close> and \<open>Items\<close> apply to an item.
\<close>

definition past_expiry :: "int \<Rightarrow> 'a Item \<Rightarrow> bool" where
  "past_expiry now v = (Expiration v > 0 \<and> now > Expiration v)"

text \<open>
  A call of one of the thirty increment and decrement methods: its direction, and the
  method with its delta. \<open>Generic\<close> is \<open>Increment\<close>/\<open>Decrement\<close>, \<open>GenericFloat\<close> is
  \<open>IncrementFloat\<close>/\<open>DecrementFloat\<close>, and \<open>OfInt8 n\<close> is \<open>IncrementInt8\<close>/\<open>DecrementInt8\<close>
  with delta \<open>n\<close>, and so on. \<open>call_mutation\<close> makes the call; its result is the error, or
  the value the method returns on success (\<open>None\<close> for the generic methods, which return
  only an error).
\<close>

datatype direction = Up | Down

datatype mutation =
    Generic "64 word"
  | GenericFloat "64 word"
  | OfInt "64 word"
  | OfInt8 "8 word"
  | OfInt16 "16 word"
  | OfInt32 "32 word"
  | OfInt64 "64 word"
  | OfUint "64 word"
  | OfUintptr "64 word"
  | OfUint8 "8 word"
  | OfUint16 "16 word"
  | OfUint32 "32 word"
  | OfUint64 "64 word"
  | OfFloat32 "32 word"
  | OfFloat64 "64 word"

definition untyped :: "error option \<times> 'a cache \<Rightarrow> (error + 'a obj option) \<times> 'a cache" where
  "untyped r = ((case fst r of Some e \<Rightarrow> Inl e | None \<Rightarrow> Inr None), snd r)"

definition typed :: "('v \<Rightarrow> 'a obj) \<Rightarrow> (error + 'v) \<times> 'a cache \<Rightarrow> (error + 'a obj option) \<times> 'a cache" where
  "typed C r = ((case fst r of Inl e \<Rightarrow> Inl e | Inr nv \<Rightarrow> Inr (Some (C nv))), snd r)"

fun call_mutation :: "fpu \<Rightarrow> direction \<Rightarrow> mutation \<Rightarrow> string \<Rightarrow> int \<Rightarrow> 'a cache \<Rightarrow> (error + 'a obj option) \<times> 'a cache" where
  "call_mutation fp Up (Generic n) k now c = untyped (Increment fp k n now c)"
| "call_mutation fp Up (GenericFloat n) k now c = untyped (IncrementFloat fp k n now c)"
| "call_mutation fp Up (OfInt n) k now c = typed IntW (IncrementInt k n now c)"
| "call_mutation fp Up (OfInt8 n) k now c = typed Int8 (IncrementInt8 k n now c)"
| "call_mutation fp Up (OfInt16 n) k now c = typed Int16 (IncrementInt16 k n now c)"
| "call_mutation fp Up (OfInt32 n) k now c = typed Int32 (IncrementInt32 k n now c)"
| "call_mutation fp Up (OfInt64 n) k now c = typed Int64 (IncrementInt64 k n now c)"
| "call_mutation fp Up (OfUint n) k now c = typed Uint (IncrementUint k n now c)"
| "call_mutation fp Up (OfUintptr n) k now c = typed Uintptr (IncrementUintptr k n now c)"
| "call_mutation fp Up (OfUint8 n) k now c = typed Uint8 (IncrementUint8 k n now c)"
| "call_mutation fp Up (OfUint16 n) k now c = typed Uint16 (IncrementUint16 k n now c)"
| "call_mutation fp Up (OfUint32 n) k now c = typed Uint32 (IncrementUint32 k n now c)"
| "call_mutation fp Up (OfUint64 n) k now c = typed Uint64 (IncrementUint64 k n now c)"
| "call_mutation fp Up (OfFloat32 n) k now c = typed Float32 (IncrementFloat32 fp k n now c)"
| "call_mutation fp Up (OfFloat64 n) k now c = typed Float64 (IncrementFloat64 fp k n now c)"
| "call_mutation fp Down (Generic n) k now c = untyped (Decrement fp k n now c)"
| "call_mutation fp Down (GenericFloat n) k now c = untyped (DecrementFloat fp k n now c)"
| "call_mutation fp Down (OfInt n) k now c = typed IntW (DecrementInt k n now c)"
| "call_mutation fp Down (OfInt8 n) k now c = typed Int8 (DecrementInt8 k n now c)"
| "call_mutation fp Down (OfInt16 n) k now c = typed Int16 (DecrementInt16 k n now c)"
| "call_mutation fp Down (OfInt32 n) k now c = typed Int32 (DecrementInt32 k n now c)"
| "call_mutation fp Down (OfInt64 n) k now c = typed Int64 (DecrementInt64 k n now c)"
| "call_mutation fp Down (OfUint n) k now c = typed Uint (DecrementUint k n now c)"
| "call_mutation fp Down (OfUintptr n) k now c = typed Uintptr (DecrementUintptr k n now c)"
| "call_mutation fp Down (OfUint8 n) k now c = typed Uint8 (DecrementUint8 k n now c)"
| "call_mutation fp Down (OfUint16 n) k now c = typed Uint16 (DecrementUint16 k n now c)"
| "call_mutation fp Down (OfUint32 n) k now c = typed Uint32 (DecrementUint32 k n now c)"
| "call_mutation fp Down (OfUint64 n) k now c = typed Uint64 (DecrementUint64 k n now c)"
| "call_mutation fp Down (OfFloat32 n) k now c = typed Float32 (DecrementFloat32 fp k n now c)"
| "call_mutation fp Down (OfFloat64 n) k now c = typed Float64 (DecrementFloat64 fp k n now c)"

text \<open>
  A sequence of such calls, each with its key and its clock reading: the final cache when
  every call succeeded, \<open>None\<close> as soon as one fails.
\<close>

fun call_mutations :: "fpu \<Rightarrow> (direction \<times> mutation \<times> string \<times> int) list \<Rightarrow> 'a cache \<Rightarrow> 'a cache option" where
  "call_mutations fp [] c = Some c"
| "call_mutations fp ((dir, m, k, now) # calls) c =
     (case fst (call_mutation fp dir m k now c) of
        Inl e \<Rightarrow> None
      | Inr r \<Rightarrow> call_mutations fp calls (snd (call_mutation fp dir m k now c)))"

text \<open>
  The specification's words for the new value, to compare the methods with: the methods
  replace the value with the old value plus or minus the delta, in the arithmetic of the
  value's own type; the generic form narrows its delta to that type first, and a typed form
  accepts exactly one type. \<open>delta_as fp m old\<close> is the delta of the call \<open>m\<close> as a value of
  the type of \<open>old\<close>, when the method accepts that type; \<open>own_arith\<close> adds or subtracts two
  values of the same type (\<open>obj_add\<close>, \<open>obj_sub\<close>).
\<close>

definition delta_as :: "fpu \<Rightarrow> mutation \<Rightarrow> 'a obj \<Rightarrow> 'a obj option" where
  "delta_as fp m old =
     (case m of
        Generic n \<Rightarrow>
          (case old of
             IntW _ \<Rightarrow> Some (IntW (scast n))
           | Int8 _ \<Rightarrow> Some (Int8 (scast n))
           | Int16 _ \<Rightarrow> Some (Int16 (scast n))
           | Int32 _ \<Rightarrow> Some (Int32 (scast n))
           | Int64 _ \<Rightarrow> Some (Int64 (scast n))
           | Uint _ \<Rightarrow> Some (Uint (scast n))
           | Uintptr _ \<Rightarrow> Some (Uintptr (scast n))
           | Uint8 _ \<Rightarrow> Some (Uint8 (scast n))
           | Uint16 _ \<Rightarrow> Some (Uint16 (scast n))
           | Uint32 _ \<Rightarrow> Some (Uint32 (scast n))
           | Uint64 _ \<Rightarrow> Some (Uint64 (scast n))
           | Float32 _ \<Rightarrow> Some (Float32 (f32_of_int64 fp n))
           | Float64 _ \<Rightarrow> Some (Float64 (f64_of_int64 fp n))
           | Other _ \<Rightarrow> None)
      | GenericFloat n \<Rightarrow>
          (case old of
             Float32 _ \<Rightarrow> Some (Float32 (f32_of_f64 fp n))
           | Float64 _ \<Rightarrow> Some (Float64 n)
           | _ \<Rightarrow> None)
      | OfInt n \<Rightarrow> (case old of IntW _ \<Rightarrow> Some (IntW n) | _ \<Rightarrow> None)
      | OfInt8 n \<Rightarrow> (case old of Int8 _ \<Rightarrow> Some (Int8 n) | _ \<Rightarrow> None)
      | OfInt16 n \<Rightarrow> (case old of Int16 _ \<Rightarrow> Some (Int16 n) | _ \<Rightarrow> None)
      | OfInt32 n \<Rightarrow> (case old of Int32 _ \<Rightarrow> Some (Int32 n) | _ \<Rightarrow> None)
      | OfInt64 n \<Rightarrow> (case old of Int64 _ \<Rightarrow> Some (Int64 n) | _ \<Rightarrow> None)
      | OfUint n \<Rightarrow> (case old of Uint _ \<Rightarrow> Some (Uint n) | _ \<Rightarrow> None)
      | OfUintptr n \<Rightarrow> (case old of Uintptr _ \<Rightarrow> Some (Uintptr n) | _ \<Rightarrow> None)
      | OfUint8 n \<Rightarrow> (case old of Uint8 _ \<Rightarrow> Some (Uint8 n) | _ \<Rightarrow> None)
      | OfUint16 n \<Rightarrow> (case old of Uint16 _ \<Rightarrow> Some (Uint16 n) | _ \<Rightarrow> None)
      | OfUint32 n \<Rightarrow> (case old of Uint32 _ \<Rightarrow> Some (Uint32 n) | _ \<Rightarrow> None)
      | OfUint64 n \<Rightarrow> (case old of Uint64 _ \<Rightarrow> Some (Uint64 n) | _ \<Rightarrow> None)
      | OfFloat32 n \<Rightarrow> (case old of Float32 _ \<Rightarrow> Some (Float32 n) | _ \<Rightarrow> None)
      | OfFloat64 n \<Rightarrow> (case old of Float64 _ \<Rightarrow> Some (Float64 n) | _ \<Rightarrow> None))"

definition obj_add :: "fpu \<Rightarrow> 'a obj \<Rightarrow> 'a obj \<Rightarrow> 'a obj" where
  "obj_add fp a b =
     (case a of
        IntW x \<Rightarrow> (case b of IntW y \<Rightarrow> IntW (x + y) | _ \<Rightarrow> a)
      | Int8 x \<Rightarrow> (case b of Int8 y \<Rightarrow> Int8 (x + y) | _ \<Rightarrow> a)
      | Int16 x \<Rightarrow> (case b of Int16 y \<Rightarrow> Int16 (x + y) | _ \<Rightarrow> a)
      | Int32 x \<Rightarrow> (case b of Int32 y \<Rightarrow> Int32 (x + y) | _ \<Rightarrow> a)
      | Int64 x \<Rightarrow> (case b of Int64 y \<Rightarrow> Int64 (x + y) | _ \<Rightarrow> a)
      | Uint x \<Rightarrow> (case b of Uint y \<Rightarrow> Uint (x + y) | _ \<Rightarrow> a)
      | Uintptr x \<Rightarrow> (case b of Uintptr y \<Rightarrow> Uintptr (x + y) | _ \<Rightarrow> a)
      | Uint8 x \<Rightarrow> (case b of Uint8 y \<Rightarrow> Uint8 (x + y) | _ \<Rightarrow> a)
      | Uint16 x \<Rightarrow> (case b of Uint16 y \<Rightarrow> Uint16 (x + y) | _ \<Rightarrow> a)
      | Uint32 x \<Rightarrow> (case b of Uint32 y \<Rightarrow> Uint32 (x + y) | _ \<Rightarrow> a)
      | Uint64 x \<Rightarrow> (case b of Uint64 y \<Rightarrow> Uint64 (x + y) | _ \<Rightarrow> a)
      | Float32 x \<Rightarrow> (case b of Float32 y \<Rightarrow> Float32 (f32_add fp x y) | _ \<Rightarrow> a)
      | Float64 x \<Rightarrow> (case b of Float64 y \<Rightarrow> Float64 (f64_add fp x y) | _ \<Rightarrow> a)
      | Other _ \<Rightarrow> a)"

definition obj_sub :: "fpu \<Rightarrow> 'a obj \<Rightarrow> 'a obj \<Rightarrow> 'a obj" where
  "obj_sub fp a b =
     (case a of
        IntW x \<Rightarrow> (case b of IntW y \<Rightarrow> IntW (x - y) | _ \<Rightarrow> a)
      | Int8 x \<Rightarrow> (case b of Int8 y \<Rightarrow> Int8 (x - y) | _ \<Rightarrow> a)
      | Int16 x \<Rightarrow> (case b of Int16 y \<Rightarrow> Int16 (x - y) | _ \<Rightarrow> a)
      | Int32 x \<Rightarrow> (case b of Int32 y \<Rightarrow> Int32 (x - y) | _ \<Rightarrow> a)
      | Int64 x \<Rightarrow> (case b of Int64 y \<Rightarrow> Int64 (x - y) | _ \<Rightarrow> a)
      | Uint x \<Rightarrow> (case b of Uint y \<Rightarrow> Uint (x - y) | _ \<Rightarrow> a)
      | Uintptr x \<Rightarrow> (case b of Uintptr y \<Rightarrow> Uintptr (x - y) | _ \<Rightarrow> a)
      | Uint8 x \<Rightarrow> (case b of Uint8 y \<Rightarrow> Uint8 (x - y) | _ \<Rightarrow> a)
      | Uint16 x \<Rightarrow> (case b of Uint16 y \<Rightarrow> Uint16 (x - y) | _ \<Rightarrow> a)
      | Uint32 x \<Rightarrow> (case b of Uint32 y \<Rightarrow> Uint32 (x - y) | _ \<Rightarrow> a)
      | Uint64 x \<Rightarrow> (case b of Uint64 y \<Rightarrow> Uint64 (x - y) | _ \<Rightarrow> a)
      | Float32 x \<Rightarrow> (case b of Float32 y \<Rightarrow> Float32 (f32_sub fp x y) | _ \<Rightarrow> a)
      | Float64 x \<Rightarrow> (case b of Float64 y \<Rightarrow> Float64 (f64_sub fp x y) | _ \<Rightarrow> a)
      | Other _ \<Rightarrow> a)"

definition own_arith :: "fpu \<Rightarrow> direction \<Rightarrow> 'a obj \<Rightarrow> 'a obj \<Rightarrow> 'a obj" where
  "own_arith fp dir a b = (case dir of Up \<Rightarrow> obj_add fp a b | Down \<Rightarrow> obj_sub fp a b)"

text \<open>
  What a successful call does, in one predicate: the key holds a live item whose type the
  method accepts, the new cache is the old one after \<open>safeStore\<close> of that item with only
  its \<open>Object\<close> replaced by the specified new value, and a typed method returns that value.
\<close>

definition mutation_post :: "fpu \<Rightarrow> direction \<Rightarrow> mutation \<Rightarrow> string \<Rightarrow> int \<Rightarrow> 'a cache \<Rightarrow> 'a obj option \<Rightarrow> 'a cache \<Rightarrow> bool" where
  "mutation_post fp dir m k now c r c' =
     (case Load k c of None \<Rightarrow> False
      | Some item \<Rightarrow>
         \<not> Expired item now \<and>
         (case delta_as fp m (Object item) of None \<Rightarrow> False
          | Some d \<Rightarrow>
              c' = safeStore k (item\<lparr>Object := own_arith fp dir (Object item) d\<rparr>) c
            \<and> (case r of None \<Rightarrow> True | Some x \<Rightarrow> x = own_arith fp dir (Object item) d)))"

text \<open>
  A floating-point unit for the examples that store no float: every operation returns the
  zero pattern.
\<close>

definition fpu0 :: fpu where
  "fpu0 = \<lparr>f32_add = (\<lambda>x y. 0), f32_sub = (\<lambda>x y. 0), f64_add = (\<lambda>x y. 0),
           f64_sub = (\<lambda>x y. 0), f32_of_int64 = (\<lambda>x. 0), f64_of_int64 = (\<lambda>x. 0),
           f32_of_f64 = (\<lambda>x. 0)\<rparr>"

section \<open>Evaluation on concrete caches\<close>

lemmas alist_eval =
  DAList.update.rep_eq DAList.delete.rep_eq DAList.empty.rep_eq DAList.lookup.rep_eq

lemmas cache_eval =
  New_def newCache_def Set_def set_unexported_def safeStore_def safeDelete_def Load_def
  NoExpiration_def DefaultExpiration_def alist_eval

lemmas mutation_eval =
  IncrementInt64_def DecrementInt64_def Increment_def typed_def untyped_def Expired_def Let_def

lemmas scan_eval =
  Delete_def delete_def call_onEvicted_def DeleteExpired_def DeleteExpired_visit_def
  Items_def Items_visit_def map_assign_def Flush_def Flush_visit_def OnEvicted_def

section \<open>The scans of the store\<close>

lemma impl_of_safeDelete:
  "DAList.impl_of (items (safeDelete k c)) = AList.delete k (DAList.impl_of (items c))"
  by (simp add: safeDelete_def DAList.delete.rep_eq)

lemma delete_middle:
  assumes "distinct (map fst (P @ (k, v) # xs))"
  shows "AList.delete k (P @ (k, v) # xs) = P @ xs"
proof -
  have "k \<notin> fst ` set P" "k \<notin> fst ` set xs" using assms by auto
  then have "filter (\<lambda>p. k \<noteq> fst p) P = P" "filter (\<lambda>p. k \<noteq> fst p) xs = xs"
    by (auto simp: filter_id_conv)
  then show ?thesis by (simp add: AList.delete_eq split_def)
qed

lemma Load_middle:
  assumes "DAList.impl_of (items c) = P @ (k, v) # xs"
  shows "Load k c = Some v"
proof -
  have "distinct (map fst (P @ (k, v) # xs))"
    using DAList.impl_of_distinct [of "items c"] assms by simp
  then have "k \<notin> fst ` set P" by auto
  then have "map_of P k = None" by (simp add: map_of_eq_None_iff)
  then show ?thesis by (simp add: Load_def DAList.lookup.rep_eq assms map_add_def)
qed

lemma Range_DeleteExpired:
  "DAList.impl_of (items c) = P @ xs \<Longrightarrow>
   \<exists>c'. Range_sync (DeleteExpired_visit now) xs (c, ev)
          = Inr (c', ev @ (if onEvicted c = None then []
                           else map (\<lambda>(k, v). (k, Some (Object v))) (filter (\<lambda>(k, v). past_expiry now v) xs)))
      \<and> DAList.impl_of (items c') = P @ filter (\<lambda>(k, v). \<not> past_expiry now v) xs
      \<and> counter c' = counter c - of_nat (length (filter (\<lambda>(k, v). past_expiry now v) xs))
      \<and> onEvicted c' = onEvicted c \<and> evictions c' = evictions c
      \<and> defaultExpiration c' = defaultExpiration c"
proof (induction xs arbitrary: c P ev)
  case Nil
  then show ?case by simp
next
  case (Cons kv xs)
  obtain k v where kv: "kv = (k, v)" by (cases kv)
  have items: "DAList.impl_of (items c) = P @ (k, v) # xs" using Cons.prems kv by simp
  show ?case
  proof (cases "past_expiry now v")
    case True
    have d: "distinct (map fst (P @ (k, v) # xs))"
      using DAList.impl_of_distinct [of "items c"] items by simp
    have i': "DAList.impl_of (items (safeDelete k c)) = P @ xs"
      using items delete_middle [OF d] by (simp add: impl_of_safeDelete)
    have l: "Load k c = Some v" by (rule Load_middle [OF items])
    have f: "onEvicted (safeDelete k c) = onEvicted c" "evictions (safeDelete k c) = evictions c"
      "defaultExpiration (safeDelete k c) = defaultExpiration c" "counter (safeDelete k c) = counter c - 1"
      by (simp_all add: safeDelete_def)
    show ?thesis
    proof (cases "onEvicted c = None")
      case n: True
      have step: "DeleteExpired_visit now k v (c, ev) = Inr (safeDelete k c, ev)"
        using True n by (simp add: DeleteExpired_visit_def delete_def past_expiry_def)
      from Cons.IH [OF i', of "ev"] obtain c' where
        "Range_sync (DeleteExpired_visit now) xs (safeDelete k c, ev)
          = Inr (c', ev @ (if onEvicted (safeDelete k c) = None then []
                           else map (\<lambda>(k, v). (k, Some (Object v))) (filter (\<lambda>(k, v). past_expiry now v) xs)))
      \<and> DAList.impl_of (items c') = P @ filter (\<lambda>(k, v). \<not> past_expiry now v) xs
      \<and> counter c' = counter (safeDelete k c) - of_nat (length (filter (\<lambda>(k, v). past_expiry now v) xs))
      \<and> onEvicted c' = onEvicted (safeDelete k c) \<and> evictions c' = evictions (safeDelete k c)
      \<and> defaultExpiration c' = defaultExpiration (safeDelete k c)" by blast
      then show ?thesis using step True n f kv by (intro exI [of _ c']) simp
    next
      case n: False
      have step: "DeleteExpired_visit now k v (c, ev) = Inr (safeDelete k c, ev @ [(k, Some (Object v))])"
        using True n l by (simp add: DeleteExpired_visit_def delete_def past_expiry_def)
      from Cons.IH [OF i', of "ev @ [(k, Some (Object v))]"] obtain c' where
        "Range_sync (DeleteExpired_visit now) xs (safeDelete k c, ev @ [(k, Some (Object v))])
          = Inr (c', (ev @ [(k, Some (Object v))]) @ (if onEvicted (safeDelete k c) = None then []
                           else map (\<lambda>(k, v). (k, Some (Object v))) (filter (\<lambda>(k, v). past_expiry now v) xs)))
      \<and> DAList.impl_of (items c') = P @ filter (\<lambda>(k, v). \<not> past_expiry now v) xs
      \<and> counter c' = counter (safeDelete k c) - of_nat (length (filter (\<lambda>(k, v). past_expiry now v) xs))
      \<and> onEvicted c' = onEvicted (safeDelete k c) \<and> evictions c' = evictions (safeDelete k c)
      \<and> defaultExpiration c' = defaultExpiration (safeDelete k c)" by blast
      then show ?thesis using step True n f kv by (intro exI [of _ c']) simp
    qed
  next
    case False
    have step: "DeleteExpired_visit now k v (c, ev) = Inr (c, ev)"
      using False by (auto simp: DeleteExpired_visit_def past_expiry_def)
    have i': "DAList.impl_of (items c) = (P @ [(k, v)]) @ xs" using items by simp
    from Cons.IH [OF i', of ev] obtain c' where
        "Range_sync (DeleteExpired_visit now) xs (c, ev)
          = Inr (c', ev @ (if onEvicted c = None then []
                           else map (\<lambda>(k, v). (k, Some (Object v))) (filter (\<lambda>(k, v). past_expiry now v) xs)))
      \<and> DAList.impl_of (items c') = (P @ [(k, v)]) @ filter (\<lambda>(k, v). \<not> past_expiry now v) xs
      \<and> counter c' = counter c - of_nat (length (filter (\<lambda>(k, v). past_expiry now v) xs))
      \<and> onEvicted c' = onEvicted c \<and> evictions c' = evictions c
      \<and> defaultExpiration c' = defaultExpiration c" by blast
    then show ?thesis using step False kv by (intro exI [of _ c']) simp
  qed
qed

lemma call_each_Some:
  "onEvicted c = Some h \<Longrightarrow>
   call_each kvs c = Inr (c\<lparr>evictions := evictions c @ map (\<lambda>(k, v). (h, k, v)) kvs\<rparr>)"
proof (induction kvs arbitrary: c)
  case Nil
  then show ?case by simp
next
  case (Cons kv kvs)
  obtain k v where kv: "kv = (k, v)" by (cases kv)
  let ?c1 = "c\<lparr>evictions := evictions c @ [(h, k, v)]\<rparr>"
  have "onEvicted ?c1 = Some h" using Cons.prems by simp
  from Cons.IH [OF this] show ?case using Cons.prems kv
    by (simp add: call_onEvicted_def)
qed

lemma DeleteExpired_result:
  "\<exists>c'. DeleteExpired now c = Inr c'
      \<and> DAList.impl_of (items c') = filter (\<lambda>(k, v). \<not> past_expiry now v) (DAList.impl_of (items c))
      \<and> counter c' = counter c - of_nat (length (filter (\<lambda>(k, v). past_expiry now v) (DAList.impl_of (items c))))
      \<and> onEvicted c' = onEvicted c
      \<and> defaultExpiration c' = defaultExpiration c
      \<and> evictions c' = evictions c @
           (case onEvicted c of None \<Rightarrow> []
            | Some h \<Rightarrow> map (\<lambda>(k, v). (h, k, Some (Object v)))
                         (filter (\<lambda>(k, v). past_expiry now v) (DAList.impl_of (items c))))"
proof -
  have "DAList.impl_of (items c) = [] @ DAList.impl_of (items c)" by simp
  from Range_DeleteExpired [OF this, of now "[]"] obtain c1 where
    r: "Range_sync (DeleteExpired_visit now) (DAList.impl_of (items c)) (c, [])
          = Inr (c1, (if onEvicted c = None then []
                           else map (\<lambda>(k, v). (k, Some (Object v))) (filter (\<lambda>(k, v). past_expiry now v) (DAList.impl_of (items c)))))"
    and i: "DAList.impl_of (items c1) = filter (\<lambda>(k, v). \<not> past_expiry now v) (DAList.impl_of (items c))"
    and n: "counter c1 = counter c - of_nat (length (filter (\<lambda>(k, v). past_expiry now v) (DAList.impl_of (items c))))"
    and o: "onEvicted c1 = onEvicted c" "evictions c1 = evictions c" "defaultExpiration c1 = defaultExpiration c"
    by auto
  show ?thesis
  proof (cases "onEvicted c")
    case None
    then show ?thesis using r i n o by (simp add: DeleteExpired_def)
  next
    case (Some h)
    then have "onEvicted c1 = Some h" using o by simp
    from call_each_Some [OF this] show ?thesis using Some r i n o
      by (simp add: DeleteExpired_def comp_def split_def)
  qed
qed

lemma Range_Flush:
  "DAList.impl_of (items c) = P @ xs \<Longrightarrow>
   \<exists>c'. Range_sync Flush_visit xs c = Inr c'
      \<and> DAList.impl_of (items c') = P
      \<and> counter c' = counter c - of_nat (length xs)
      \<and> onEvicted c' = onEvicted c \<and> evictions c' = evictions c
      \<and> defaultExpiration c' = defaultExpiration c"
proof (induction xs arbitrary: c)
  case Nil
  then show ?case by simp
next
  case (Cons kv xs)
  obtain k v where kv: "kv = (k, v)" by (cases kv)
  have items: "DAList.impl_of (items c) = P @ (k, v) # xs" using Cons.prems kv by simp
  have d: "distinct (map fst (P @ (k, v) # xs))"
    using DAList.impl_of_distinct [of "items c"] items by simp
  have i': "DAList.impl_of (items (safeDelete k c)) = P @ xs"
    using items delete_middle [OF d] by (simp add: impl_of_safeDelete)
  have f: "onEvicted (safeDelete k c) = onEvicted c" "evictions (safeDelete k c) = evictions c"
    "defaultExpiration (safeDelete k c) = defaultExpiration c" "counter (safeDelete k c) = counter c - 1"
    by (simp_all add: safeDelete_def)
  from Cons.IH [OF i'] obtain c' where
    "Range_sync Flush_visit xs (safeDelete k c) = Inr c'
      \<and> DAList.impl_of (items c') = P
      \<and> counter c' = counter (safeDelete k c) - of_nat (length xs)
      \<and> onEvicted c' = onEvicted (safeDelete k c) \<and> evictions c' = evictions (safeDelete k c)
      \<and> defaultExpiration c' = defaultExpiration (safeDelete k c)" by blast
  moreover have "Flush_visit k v c = Inr (safeDelete k c)" by (simp add: Flush_visit_def)
  ultimately show ?case using kv f by (intro exI [of _ c']) simp
qed

lemma Flush_result:
  "Flush c = Inr (c\<lparr>items := DAList.empty, counter := counter c - of_nat (length (DAList.impl_of (items c)))\<rparr>)"
proof -
  have "DAList.impl_of (items c) = [] @ DAList.impl_of (items c)" by simp
  from Range_Flush [OF this] obtain c' where
    r: "Flush c = Inr c'" and i: "DAList.impl_of (items c') = []"
    and o: "counter c' = counter c - of_nat (length (DAList.impl_of (items c)))"
      "onEvicted c' = onEvicted c" "evictions c' = evictions c"
      "defaultExpiration c' = defaultExpiration c"
    by (auto simp: Flush_def)
  have "items c' = DAList.empty" using i by (simp add: DAList.alist_eq_iff DAList.empty.rep_eq)
  then have "c' = c\<lparr>items := DAList.empty, counter := counter c - of_nat (length (DAList.impl_of (items c)))\<rparr>"
    using o by simp
  then show ?thesis using r by simp
qed

lemma Range_Items_nil:
  "Range_sync (Items_visit now) xs None =
     (if list_all (\<lambda>(k, v). past_expiry now v) xs then Inr None
      else Inl AssignmentToEntryInNilMap)"
proof (induction xs)
  case Nil
  then show ?case by simp
next
  case (Cons kv xs)
  obtain k v where kv: "kv = (k, v)" by (cases kv)
  show ?case
  proof (cases "past_expiry now v")
    case True
    then have "Items_visit now k v None = Inr None"
      by (simp add: Items_visit_def past_expiry_def)
    then show ?thesis using Cons.IH True kv by simp
  next
    case False
    then have "Items_visit now k v None = Inl AssignmentToEntryInNilMap"
      by (auto simp: Items_visit_def map_assign_def past_expiry_def)
    then show ?thesis using False kv by simp
  qed
qed

lemma Range_Items_made:
  "Range_sync (Items_visit now) xs (Some f) =
     Inr (Some (f ++ map_of (rev (filter (\<lambda>(k, v). \<not> past_expiry now v) xs))))"
proof (induction xs arbitrary: f)
  case Nil
  then show ?case by simp
next
  case (Cons kv xs)
  obtain k v where kv: "kv = (k, v)" by (cases kv)
  show ?case
  proof (cases "past_expiry now v")
    case True
    then have "Items_visit now k v (Some f) = Inr (Some f)"
      by (simp add: Items_visit_def past_expiry_def)
    then show ?thesis using Cons.IH [of f] True kv by simp
  next
    case False
    then have "Items_visit now k v (Some f) = Inr (Some (f(k \<mapsto> v)))"
      by (auto simp: Items_visit_def map_assign_def past_expiry_def)
    then have "Range_sync (Items_visit now) (kv # xs) (Some f)
                 = Range_sync (Items_visit now) xs (Some (f(k \<mapsto> v)))"
      using kv by simp
    also have "\<dots> = Inr (Some (f(k \<mapsto> v)
                 ++ map_of (rev (filter (\<lambda>(k, v). \<not> past_expiry now v) xs))))"
      by (rule Cons.IH)
    also have "f(k \<mapsto> v) ++ map_of (rev (filter (\<lambda>(k, v). \<not> past_expiry now v) xs))
                 = f ++ map_of (rev (filter (\<lambda>(k, v). \<not> past_expiry now v) (kv # xs)))"
      using False kv by (simp add: map_add_def fun_eq_iff split: option.split)
    finally show ?thesis .
  qed
qed

lemma map_of_rev_distinct:
  "distinct (map fst xs) \<Longrightarrow> map_of (rev xs) = map_of xs"
proof (rule ext)
  fix k
  assume d: "distinct (map fst xs)"
  have "map fst (rev xs) = rev (map fst xs)" by (rule rev_map [symmetric])
  then have dr: "distinct (map fst (rev xs))" using d by simp
  show "map_of (rev xs) k = map_of xs k"
  proof (cases "map_of xs k")
    case None
    then have "k \<notin> fst ` set (rev xs)" by (simp add: map_of_eq_None_iff)
    then have "map_of (rev xs) k = None" by (simp only: map_of_eq_None_iff not_False_eq_True)
    then show ?thesis using None by simp
  next
    case (Some v)
    then have "(k, v) \<in> set (rev xs)" using d by simp
    then have "map_of (rev xs) k = Some v" using dr by (simp only: map_of_eq_Some_iff)
    then show ?thesis using Some by simp
  qed
qed

lemma map_of_filter_present:
  assumes "distinct (map fst kvs)"
  shows "map_of (filter keep kvs) key =
           (case map_of kvs key of
              Some item \<Rightarrow> (if keep (key, item) then Some item else None)
            | None \<Rightarrow> None)"
  using assms
proof (induction kvs)
  case Nil
  then show ?case by simp
next
  case (Cons kv kvs)
  obtain k' v' where kv: "kv = (k', v')" by (cases kv)
  have "k' \<notin> fst ` set kvs" using Cons.prems kv by simp
  then have n: "map_of kvs k' = None" "map_of (filter keep kvs) k' = None"
    by (auto simp: map_of_eq_None_iff)
  show ?case using Cons kv n by (auto split: option.split)
qed

section \<open>The increment and decrement methods, one by one\<close>

lemma Increment_post:
  "call_mutation fp Up (Generic n) k now c = (Inr r, c') \<Longrightarrow>
   mutation_post fp Up (Generic n) k now c r c'"
  unfolding call_mutation.simps untyped_def Increment_def
  by (simp split: option.split_asm if_split_asm obj.split_asm)
     (auto simp: mutation_post_def delta_as_def own_arith_def obj_add_def)

lemma IncrementFloat_post:
  "call_mutation fp Up (GenericFloat n) k now c = (Inr r, c') \<Longrightarrow>
   mutation_post fp Up (GenericFloat n) k now c r c'"
  unfolding call_mutation.simps untyped_def IncrementFloat_def
  by (simp split: option.split_asm if_split_asm obj.split_asm)
     (auto simp: mutation_post_def delta_as_def own_arith_def obj_add_def)

lemma IncrementInt_post:
  "call_mutation fp Up (OfInt n) k now c = (Inr r, c') \<Longrightarrow>
   mutation_post fp Up (OfInt n) k now c r c'"
  unfolding call_mutation.simps typed_def IncrementInt_def
  by (simp add: Let_def split: option.split_asm if_split_asm obj.split_asm)
     (auto simp: mutation_post_def delta_as_def own_arith_def obj_add_def)

lemma IncrementInt8_post:
  "call_mutation fp Up (OfInt8 n) k now c = (Inr r, c') \<Longrightarrow>
   mutation_post fp Up (OfInt8 n) k now c r c'"
  unfolding call_mutation.simps typed_def IncrementInt8_def
  by (simp add: Let_def split: option.split_asm if_split_asm obj.split_asm)
     (auto simp: mutation_post_def delta_as_def own_arith_def obj_add_def)

lemma IncrementInt16_post:
  "call_mutation fp Up (OfInt16 n) k now c = (Inr r, c') \<Longrightarrow>
   mutation_post fp Up (OfInt16 n) k now c r c'"
  unfolding call_mutation.simps typed_def IncrementInt16_def
  by (simp add: Let_def split: option.split_asm if_split_asm obj.split_asm)
     (auto simp: mutation_post_def delta_as_def own_arith_def obj_add_def)

lemma IncrementInt32_post:
  "call_mutation fp Up (OfInt32 n) k now c = (Inr r, c') \<Longrightarrow>
   mutation_post fp Up (OfInt32 n) k now c r c'"
  unfolding call_mutation.simps typed_def IncrementInt32_def
  by (simp add: Let_def split: option.split_asm if_split_asm obj.split_asm)
     (auto simp: mutation_post_def delta_as_def own_arith_def obj_add_def)

lemma IncrementInt64_post:
  "call_mutation fp Up (OfInt64 n) k now c = (Inr r, c') \<Longrightarrow>
   mutation_post fp Up (OfInt64 n) k now c r c'"
  unfolding call_mutation.simps typed_def IncrementInt64_def
  by (simp add: Let_def split: option.split_asm if_split_asm obj.split_asm)
     (auto simp: mutation_post_def delta_as_def own_arith_def obj_add_def)

lemma IncrementUint_post:
  "call_mutation fp Up (OfUint n) k now c = (Inr r, c') \<Longrightarrow>
   mutation_post fp Up (OfUint n) k now c r c'"
  unfolding call_mutation.simps typed_def IncrementUint_def
  by (simp add: Let_def split: option.split_asm if_split_asm obj.split_asm)
     (auto simp: mutation_post_def delta_as_def own_arith_def obj_add_def)

lemma IncrementUintptr_post:
  "call_mutation fp Up (OfUintptr n) k now c = (Inr r, c') \<Longrightarrow>
   mutation_post fp Up (OfUintptr n) k now c r c'"
  unfolding call_mutation.simps typed_def IncrementUintptr_def
  by (simp add: Let_def split: option.split_asm if_split_asm obj.split_asm)
     (auto simp: mutation_post_def delta_as_def own_arith_def obj_add_def)

lemma IncrementUint8_post:
  "call_mutation fp Up (OfUint8 n) k now c = (Inr r, c') \<Longrightarrow>
   mutation_post fp Up (OfUint8 n) k now c r c'"
  unfolding call_mutation.simps typed_def IncrementUint8_def
  by (simp add: Let_def split: option.split_asm if_split_asm obj.split_asm)
     (auto simp: mutation_post_def delta_as_def own_arith_def obj_add_def)

lemma IncrementUint16_post:
  "call_mutation fp Up (OfUint16 n) k now c = (Inr r, c') \<Longrightarrow>
   mutation_post fp Up (OfUint16 n) k now c r c'"
  unfolding call_mutation.simps typed_def IncrementUint16_def
  by (simp add: Let_def split: option.split_asm if_split_asm obj.split_asm)
     (auto simp: mutation_post_def delta_as_def own_arith_def obj_add_def)

lemma IncrementUint32_post:
  "call_mutation fp Up (OfUint32 n) k now c = (Inr r, c') \<Longrightarrow>
   mutation_post fp Up (OfUint32 n) k now c r c'"
  unfolding call_mutation.simps typed_def IncrementUint32_def
  by (simp add: Let_def split: option.split_asm if_split_asm obj.split_asm)
     (auto simp: mutation_post_def delta_as_def own_arith_def obj_add_def)

lemma IncrementUint64_post:
  "call_mutation fp Up (OfUint64 n) k now c = (Inr r, c') \<Longrightarrow>
   mutation_post fp Up (OfUint64 n) k now c r c'"
  unfolding call_mutation.simps typed_def IncrementUint64_def
  by (simp add: Let_def split: option.split_asm if_split_asm obj.split_asm)
     (auto simp: mutation_post_def delta_as_def own_arith_def obj_add_def)

lemma IncrementFloat32_post:
  "call_mutation fp Up (OfFloat32 n) k now c = (Inr r, c') \<Longrightarrow>
   mutation_post fp Up (OfFloat32 n) k now c r c'"
  unfolding call_mutation.simps typed_def IncrementFloat32_def
  by (simp add: Let_def split: option.split_asm if_split_asm obj.split_asm)
     (auto simp: mutation_post_def delta_as_def own_arith_def obj_add_def)

lemma IncrementFloat64_post:
  "call_mutation fp Up (OfFloat64 n) k now c = (Inr r, c') \<Longrightarrow>
   mutation_post fp Up (OfFloat64 n) k now c r c'"
  unfolding call_mutation.simps typed_def IncrementFloat64_def
  by (simp add: Let_def split: option.split_asm if_split_asm obj.split_asm)
     (auto simp: mutation_post_def delta_as_def own_arith_def obj_add_def)

lemma Decrement_post:
  "call_mutation fp Down (Generic n) k now c = (Inr r, c') \<Longrightarrow>
   mutation_post fp Down (Generic n) k now c r c'"
  unfolding call_mutation.simps untyped_def Decrement_def
  by (simp split: option.split_asm if_split_asm obj.split_asm)
     (auto simp: mutation_post_def delta_as_def own_arith_def obj_sub_def)

lemma DecrementFloat_post:
  "call_mutation fp Down (GenericFloat n) k now c = (Inr r, c') \<Longrightarrow>
   mutation_post fp Down (GenericFloat n) k now c r c'"
  unfolding call_mutation.simps untyped_def DecrementFloat_def
  by (simp split: option.split_asm if_split_asm obj.split_asm)
     (auto simp: mutation_post_def delta_as_def own_arith_def obj_sub_def)

lemma DecrementInt_post:
  "call_mutation fp Down (OfInt n) k now c = (Inr r, c') \<Longrightarrow>
   mutation_post fp Down (OfInt n) k now c r c'"
  unfolding call_mutation.simps typed_def DecrementInt_def
  by (simp add: Let_def split: option.split_asm if_split_asm obj.split_asm)
     (auto simp: mutation_post_def delta_as_def own_arith_def obj_sub_def)

lemma DecrementInt8_post:
  "call_mutation fp Down (OfInt8 n) k now c = (Inr r, c') \<Longrightarrow>
   mutation_post fp Down (OfInt8 n) k now c r c'"
  unfolding call_mutation.simps typed_def DecrementInt8_def
  by (simp add: Let_def split: option.split_asm if_split_asm obj.split_asm)
     (auto simp: mutation_post_def delta_as_def own_arith_def obj_sub_def)

lemma DecrementInt16_post:
  "call_mutation fp Down (OfInt16 n) k now c = (Inr r, c') \<Longrightarrow>
   mutation_post fp Down (OfInt16 n) k now c r c'"
  unfolding call_mutation.simps typed_def DecrementInt16_def
  by (simp add: Let_def split: option.split_asm if_split_asm obj.split_asm)
     (auto simp: mutation_post_def delta_as_def own_arith_def obj_sub_def)

lemma DecrementInt32_post:
  "call_mutation fp Down (OfInt32 n) k now c = (Inr r, c') \<Longrightarrow>
   mutation_post fp Down (OfInt32 n) k now c r c'"
  unfolding call_mutation.simps typed_def DecrementInt32_def
  by (simp add: Let_def split: option.split_asm if_split_asm obj.split_asm)
     (auto simp: mutation_post_def delta_as_def own_arith_def obj_sub_def)

lemma DecrementInt64_post:
  "call_mutation fp Down (OfInt64 n) k now c = (Inr r, c') \<Longrightarrow>
   mutation_post fp Down (OfInt64 n) k now c r c'"
  unfolding call_mutation.simps typed_def DecrementInt64_def
  by (simp add: Let_def split: option.split_asm if_split_asm obj.split_asm)
     (auto simp: mutation_post_def delta_as_def own_arith_def obj_sub_def)

lemma DecrementUint_post:
  "call_mutation fp Down (OfUint n) k now c = (Inr r, c') \<Longrightarrow>
   mutation_post fp Down (OfUint n) k now c r c'"
  unfolding call_mutation.simps typed_def DecrementUint_def
  by (simp add: Let_def split: option.split_asm if_split_asm obj.split_asm)
     (auto simp: mutation_post_def delta_as_def own_arith_def obj_sub_def)

lemma DecrementUintptr_post:
  "call_mutation fp Down (OfUintptr n) k now c = (Inr r, c') \<Longrightarrow>
   mutation_post fp Down (OfUintptr n) k now c r c'"
  unfolding call_mutation.simps typed_def DecrementUintptr_def
  by (simp add: Let_def split: option.split_asm if_split_asm obj.split_asm)
     (auto simp: mutation_post_def delta_as_def own_arith_def obj_sub_def)

lemma DecrementUint8_post:
  "call_mutation fp Down (OfUint8 n) k now c = (Inr r, c') \<Longrightarrow>
   mutation_post fp Down (OfUint8 n) k now c r c'"
  unfolding call_mutation.simps typed_def DecrementUint8_def
  by (simp add: Let_def split: option.split_asm if_split_asm obj.split_asm)
     (auto simp: mutation_post_def delta_as_def own_arith_def obj_sub_def)

lemma DecrementUint16_post:
  "call_mutation fp Down (OfUint16 n) k now c = (Inr r, c') \<Longrightarrow>
   mutation_post fp Down (OfUint16 n) k now c r c'"
  unfolding call_mutation.simps typed_def DecrementUint16_def
  by (simp add: Let_def split: option.split_asm if_split_asm obj.split_asm)
     (auto simp: mutation_post_def delta_as_def own_arith_def obj_sub_def)

lemma DecrementUint32_post:
  "call_mutation fp Down (OfUint32 n) k now c = (Inr r, c') \<Longrightarrow>
   mutation_post fp Down (OfUint32 n) k now c r c'"
  unfolding call_mutation.simps typed_def DecrementUint32_def
  by (simp add: Let_def split: option.split_asm if_split_asm obj.split_asm)
     (auto simp: mutation_post_def delta_as_def own_arith_def obj_sub_def)

lemma DecrementUint64_post:
  "call_mutation fp Down (OfUint64 n) k now c = (Inr r, c') \<Longrightarrow>
   mutation_post fp Down (OfUint64 n) k now c r c'"
  unfolding call_mutation.simps typed_def DecrementUint64_def
  by (simp add: Let_def split: option.split_asm if_split_asm obj.split_asm)
     (auto simp: mutation_post_def delta_as_def own_arith_def obj_sub_def)

lemma DecrementFloat32_post:
  "call_mutation fp Down (OfFloat32 n) k now c = (Inr r, c') \<Longrightarrow>
   mutation_post fp Down (OfFloat32 n) k now c r c'"
  unfolding call_mutation.simps typed_def DecrementFloat32_def
  by (simp add: Let_def split: option.split_asm if_split_asm obj.split_asm)
     (auto simp: mutation_post_def delta_as_def own_arith_def obj_sub_def)

lemma DecrementFloat64_post:
  "call_mutation fp Down (OfFloat64 n) k now c = (Inr r, c') \<Longrightarrow>
   mutation_post fp Down (OfFloat64 n) k now c r c'"
  unfolding call_mutation.simps typed_def DecrementFloat64_def
  by (simp add: Let_def split: option.split_asm if_split_asm obj.split_asm)
     (auto simp: mutation_post_def delta_as_def own_arith_def obj_sub_def)

lemma call_mutation_post:
  assumes "call_mutation fp dir m k now c = (Inr r, c')"
  shows "mutation_post fp dir m k now c r c'"
proof (cases dir)
  case Up
  show ?thesis
  proof (cases m)
    case (Generic n)
    then show ?thesis using assms Up by (simp only: Increment_post)
  next
    case (GenericFloat n)
    then show ?thesis using assms Up by (simp only: IncrementFloat_post)
  next
    case (OfInt n)
    then show ?thesis using assms Up by (simp only: IncrementInt_post)
  next
    case (OfInt8 n)
    then show ?thesis using assms Up by (simp only: IncrementInt8_post)
  next
    case (OfInt16 n)
    then show ?thesis using assms Up by (simp only: IncrementInt16_post)
  next
    case (OfInt32 n)
    then show ?thesis using assms Up by (simp only: IncrementInt32_post)
  next
    case (OfInt64 n)
    then show ?thesis using assms Up by (simp only: IncrementInt64_post)
  next
    case (OfUint n)
    then show ?thesis using assms Up by (simp only: IncrementUint_post)
  next
    case (OfUintptr n)
    then show ?thesis using assms Up by (simp only: IncrementUintptr_post)
  next
    case (OfUint8 n)
    then show ?thesis using assms Up by (simp only: IncrementUint8_post)
  next
    case (OfUint16 n)
    then show ?thesis using assms Up by (simp only: IncrementUint16_post)
  next
    case (OfUint32 n)
    then show ?thesis using assms Up by (simp only: IncrementUint32_post)
  next
    case (OfUint64 n)
    then show ?thesis using assms Up by (simp only: IncrementUint64_post)
  next
    case (OfFloat32 n)
    then show ?thesis using assms Up by (simp only: IncrementFloat32_post)
  next
    case (OfFloat64 n)
    then show ?thesis using assms Up by (simp only: IncrementFloat64_post)
  qed
next
  case Down
  show ?thesis
  proof (cases m)
    case (Generic n)
    then show ?thesis using assms Down by (simp only: Decrement_post)
  next
    case (GenericFloat n)
    then show ?thesis using assms Down by (simp only: DecrementFloat_post)
  next
    case (OfInt n)
    then show ?thesis using assms Down by (simp only: DecrementInt_post)
  next
    case (OfInt8 n)
    then show ?thesis using assms Down by (simp only: DecrementInt8_post)
  next
    case (OfInt16 n)
    then show ?thesis using assms Down by (simp only: DecrementInt16_post)
  next
    case (OfInt32 n)
    then show ?thesis using assms Down by (simp only: DecrementInt32_post)
  next
    case (OfInt64 n)
    then show ?thesis using assms Down by (simp only: DecrementInt64_post)
  next
    case (OfUint n)
    then show ?thesis using assms Down by (simp only: DecrementUint_post)
  next
    case (OfUintptr n)
    then show ?thesis using assms Down by (simp only: DecrementUintptr_post)
  next
    case (OfUint8 n)
    then show ?thesis using assms Down by (simp only: DecrementUint8_post)
  next
    case (OfUint16 n)
    then show ?thesis using assms Down by (simp only: DecrementUint16_post)
  next
    case (OfUint32 n)
    then show ?thesis using assms Down by (simp only: DecrementUint32_post)
  next
    case (OfUint64 n)
    then show ?thesis using assms Down by (simp only: DecrementUint64_post)
  next
    case (OfFloat32 n)
    then show ?thesis using assms Down by (simp only: DecrementFloat32_post)
  next
    case (OfFloat64 n)
    then show ?thesis using assms Down by (simp only: DecrementFloat64_post)
  qed
qed

section \<open>Elementary facts about the store\<close>

lemma Load_safeStore: "Load k' (safeStore k v c) = (if k = k' then Some v else Load k' c)"
  by (simp add: Load_def safeStore_def DAList.lookup_update)

lemma Load_safeDelete: "Load k' (safeDelete k c) = (if k = k' then None else Load k' c)"
  by (simp add: Load_def safeDelete_def)

lemma length_update_present:
  "k \<in> fst ` set xs \<Longrightarrow> length (AList.update k v xs) = length xs"
  by (induction xs) auto

lemma Items_result:
  "Items now c =
     (if list_all (\<lambda>(k, v). past_expiry now v) (DAList.impl_of (items c)) then Inr None
      else Inl AssignmentToEntryInNilMap)"
  by (simp add: Items_def Range_Items_nil)

lemma call_mutation_counter:
  assumes "call_mutation fp dir m k now c = (Inr r, c')"
  shows "counter c' = counter c + 1" and "(Load k' c' = None) = (Load k' c = None)"
proof -
  from assms have p: "mutation_post fp dir m k now c r c'" by (rule call_mutation_post)
  then obtain item where l: "Load k c = Some item"
    by (auto simp: mutation_post_def split: option.splits)
  from p l obtain d where c': "c' = safeStore k (item\<lparr>Object := own_arith fp dir (Object item) d\<rparr>) c"
    by (auto simp: mutation_post_def split: option.splits)
  show "counter c' = counter c + 1" by (simp add: c' safeStore_def)
  show "(Load k' c' = None) = (Load k' c = None)" using l by (auto simp: c' Load_safeStore)
qed

lemma call_mutations_counter:
  "call_mutations fp calls c = Some c' \<Longrightarrow>
     counter c' = counter c + of_nat (length calls)
     \<and> (\<forall>k. (Load k c' = None) = (Load k c = None))"
proof (induction calls arbitrary: c)
  case Nil
  then show ?case by simp
next
  case (Cons call calls)
  obtain dir m k now where call: "call = (dir, m, k, now)" by (cases call) auto
  from Cons.prems call obtain r where
    f: "fst (call_mutation fp dir m k now c) = Inr r"
    and rest: "call_mutations fp calls (snd (call_mutation fp dir m k now c)) = Some c'"
    by (auto split: sum.splits)
  let ?c1 = "snd (call_mutation fp dir m k now c)"
  have eq: "call_mutation fp dir m k now c = (Inr r, ?c1)" using f by (simp add: prod_eq_iff)
  from call_mutation_counter [OF eq] Cons.IH [OF rest] show ?case by simp
qed

section \<open>Expiration on read\<close>

text \<open>
  Claim C3. Expiration is a strict comparison. For an entry stored under \<open>k\<close> with a finite
  expiry timestamp \<open>E\<close> (a positive \<open>Expiration\<close>), \<open>Get\<close> at a query time \<open>now\<close> reports
  not found when \<open>now\<close> is strictly greater than \<open>E\<close>, and found with the stored value when
  \<open>now\<close> is at most \<open>E\<close>: the entry is still live at the exact expiry instant. An entry
  with no expiration set (\<open>Expiration\<close> 0) is found at every query time and \<open>Expired\<close> is
  false for it; on an entry with an expiration, \<open>Expired\<close> is the same strict comparison.
\<close>

theorem Get_expiration_strict:
  "Load k c = Some item \<Longrightarrow>
     (0 < Expiration item \<longrightarrow>
        Get k now c =
          (if Expiration item < now then (None, False) else (Some (Object item), True)))
   \<and> (Expiration item = 0 \<longrightarrow>
        Get k now c = (Some (Object item), True) \<and> \<not> Expired item now)
   \<and> (Expiration item \<noteq> 0 \<longrightarrow> Expired item now = (Expiration item < now))"
  by (simp add: Get_def Expired_def)

theorem Get_expiration_strict_witness:
  "Load ''a'' (Set ''a'' (Int64 7) 50 100 (New 0 0 :: unit cache))
     = Some \<lparr>Object = Int64 7, Expiration = 150\<rparr>
   \<and> Get ''a'' 150 (Set ''a'' (Int64 7) 50 100 (New 0 0 :: unit cache)) = (Some (Int64 7), True)
   \<and> Get ''a'' 151 (Set ''a'' (Int64 7) 50 100 (New 0 0 :: unit cache)) = (None, False)"
proof -
  let ?c = "Set ''a'' (Int64 7) 50 100 (New 0 0 :: unit cache)"
  let ?item = "\<lparr>Object = Int64 7 :: unit obj, Expiration = 150\<rparr>"
  have l: "Load ''a'' ?c = Some ?item"
    by (simp add: cache_eval)
  from Get_expiration_strict [OF l, of 150] Get_expiration_strict [OF l, of 151] l
  show ?thesis by simp
qed

section \<open>Add\<close>

text \<open>
  Claim C5. \<open>Add\<close> returns the error \<^verbatim>\<open>Item k already exists\<close> exactly when a live entry
  for \<open>k\<close> is present, live meaning that \<open>get\<close> finds it at the first clock reading; it
  then leaves the cache as it is. Otherwise, with \<open>k\<close> absent or its entry expired, it
  returns \<^verbatim>\<open>nil\<close> and the cache is the one \<open>Set\<close> produces with the same key, value and
  duration at the second clock reading, so the expiry is computed as \<open>Set\<close> computes it.
\<close>

theorem Add_fails_iff_live:
  "(fst (Add k x d now1 now2 c) = Some (Errorf (''Item '' @ k @ '' already exists''))
      \<longleftrightarrow> (\<exists>item. Load k c = Some item \<and> \<not> past_expiry now1 item))
   \<and> (fst (Add k x d now1 now2 c) = None
      \<longleftrightarrow> \<not> (\<exists>item. Load k c = Some item \<and> \<not> past_expiry now1 item))
   \<and> snd (Add k x d now1 now2 c)
       = (if fst (Add k x d now1 now2 c) = None then Set k x d now2 c else c)"
  by (auto simp: Add_def get_def Set_def set_unexported_def past_expiry_def split: option.split)

theorem Add_fails_iff_live_witness:
  "fst (Add ''x'' (Int64 5) NoExpiration 100 100 (New 0 0 :: unit cache)) = None
   \<and> fst (Add ''x'' (Int64 9) NoExpiration 101 101
            (snd (Add ''x'' (Int64 5) NoExpiration 100 100 (New 0 0 :: unit cache))))
       = Some (Errorf ''Item x already exists'')
   \<and> Get ''x'' 102 (snd (Add ''x'' (Int64 9) NoExpiration 101 101
            (snd (Add ''x'' (Int64 5) NoExpiration 100 100 (New 0 0 :: unit cache)))))
       = (Some (Int64 5), True)"
proof -
  let ?c0 = "New 0 0 :: unit cache"
  let ?c1 = "Set ''x'' (Int64 5) NoExpiration 100 ?c0"
  have l0: "\<not> (\<exists>item. Load ''x'' ?c0 = Some item \<and> \<not> past_expiry 100 item)"
    by (simp add: cache_eval)
  from Add_fails_iff_live [of "''x''" "Int64 5" NoExpiration 100 100 ?c0] l0
  have a1: "fst (Add ''x'' (Int64 5) NoExpiration 100 100 ?c0) = None"
    and s1: "snd (Add ''x'' (Int64 5) NoExpiration 100 100 ?c0) = ?c1"
    by simp_all
  have l1: "\<exists>item. Load ''x'' ?c1 = Some item \<and> \<not> past_expiry 101 item"
    by (simp add: cache_eval past_expiry_def)
  from Add_fails_iff_live [of "''x''" "Int64 9" NoExpiration 101 101 ?c1] l1
  have a2: "fst (Add ''x'' (Int64 9) NoExpiration 101 101 ?c1) = Some (Errorf ''Item x already exists'')"
    and s2: "snd (Add ''x'' (Int64 9) NoExpiration 101 101 ?c1) = ?c1"
    by simp_all
  have "Get ''x'' 102 ?c1 = (Some (Int64 5), True)" by (simp add: Get_def cache_eval)
  with a1 s1 a2 s2 show ?thesis by simp
qed

section \<open>Increment and Decrement: what they change\<close>

text \<open>
  Claim C6. Every successful call of a generic or typed increment or decrement method
  found a live item under the key, of a type the method accepts, and stores under the key
  the item with the same \<open>Expiration\<close> and with the old value plus or minus the delta, in
  the arithmetic of the value's own type, as its \<open>Object\<close>; a typed method returns that
  value. No other key, and neither the default expiration, the hook nor the record of hook
  calls, is changed. The expiration timestamp is never refreshed or extended.
\<close>

theorem mutation_changes_value_only:
  "call_mutation fp dir m k now c = (Inr r, c') \<Longrightarrow>
   \<exists>item d. Load k c = Some item \<and> \<not> Expired item now
     \<and> delta_as fp m (Object item) = Some d
     \<and> Load k c' = Some \<lparr>Object = own_arith fp dir (Object item) d, Expiration = Expiration item\<rparr>
     \<and> (case r of None \<Rightarrow> True | Some x \<Rightarrow> x = own_arith fp dir (Object item) d)
     \<and> (\<forall>k'. k' \<noteq> k \<longrightarrow> Load k' c' = Load k' c)
     \<and> defaultExpiration c' = defaultExpiration c \<and> onEvicted c' = onEvicted c
     \<and> evictions c' = evictions c"
proof -
  assume "call_mutation fp dir m k now c = (Inr r, c')"
  then have p: "mutation_post fp dir m k now c r c'" by (rule call_mutation_post)
  then obtain item where l: "Load k c = Some item"
    by (auto simp: mutation_post_def split: option.splits)
  from p l obtain d where e: "\<not> Expired item now" and d: "delta_as fp m (Object item) = Some d"
    by (auto simp: mutation_post_def split: option.splits)
  from p l d have c': "c' = safeStore k (item\<lparr>Object := own_arith fp dir (Object item) d\<rparr>) c"
    and r: "(case r of None \<Rightarrow> True | Some x \<Rightarrow> x = own_arith fp dir (Object item) d)"
    by (simp_all add: mutation_post_def)
  have "Load k c' = Some \<lparr>Object = own_arith fp dir (Object item) d, Expiration = Expiration item\<rparr>"
    by (simp add: c' Load_safeStore)
  moreover have "\<forall>k'. k' \<noteq> k \<longrightarrow> Load k' c' = Load k' c"
    by (simp add: c' Load_safeStore)
  moreover have "defaultExpiration c' = defaultExpiration c" "onEvicted c' = onEvicted c"
    "evictions c' = evictions c"
    by (simp_all add: c' safeStore_def)
  ultimately show ?thesis using l e d r by blast
qed

theorem mutation_changes_value_only_witness:
  "fst (call_mutation fpu0 Up (OfInt64 5) ''a'' 120
          (Set ''a'' (Int64 7) 50 100 (New 0 0 :: unit cache))) = Inr (Some (Int64 12))
   \<and> Load ''a'' (snd (call_mutation fpu0 Up (OfInt64 5) ''a'' 120
          (Set ''a'' (Int64 7) 50 100 (New 0 0 :: unit cache))))
       = Some \<lparr>Object = Int64 12, Expiration = 150\<rparr>"
proof -
  let ?c = "Set ''a'' (Int64 7) 50 100 (New 0 0 :: unit cache)"
  let ?c' = "snd (call_mutation fpu0 Up (OfInt64 5) ''a'' 120 ?c)"
  have l: "Load ''a'' ?c = Some \<lparr>Object = Int64 7, Expiration = 150\<rparr>"
    by (simp add: cache_eval)
  have f: "fst (call_mutation fpu0 Up (OfInt64 5) ''a'' 120 ?c) = Inr (Some (Int64 12))"
    by (simp add: mutation_eval cache_eval)
  then have "call_mutation fpu0 Up (OfInt64 5) ''a'' 120 ?c = (Inr (Some (Int64 12)), ?c')"
    by (simp add: prod_eq_iff)
  from mutation_changes_value_only [OF this] obtain item d where
    "Load ''a'' ?c = Some item" "delta_as fpu0 (OfInt64 5) (Object item) = Some d"
    "Load ''a'' ?c' = Some \<lparr>Object = own_arith fpu0 Up (Object item) d, Expiration = Expiration item\<rparr>"
    by blast
  with l have "Load ''a'' ?c' = Some \<lparr>Object = Int64 12, Expiration = 150\<rparr>"
    by (auto simp: delta_as_def own_arith_def obj_add_def)
  with f show ?thesis by simp
qed

text \<open>
  Claim C7. When \<open>k\<close> holds an \<^verbatim>\<open>int64\<close> value \<open>v\<close> that is live at both clock readings,
  \<open>IncrementInt64\<close> by \<open>n\<close> returns \<open>v + n\<close> and \<open>DecrementInt64\<close> by \<open>n\<close> right after it
  returns \<open>v\<close> and leaves the original item stored under \<open>k\<close>. The sum is taken in 64-bit
  two's complement, so this holds for every \<open>n\<close>, in particular for every \<open>n\<close> for which
  \<open>v + n\<close> does not overflow.
\<close>

theorem IncrementInt64_DecrementInt64_roundtrip:
  "Load k c = Some item \<Longrightarrow> Object item = Int64 v \<Longrightarrow>
   \<not> Expired item now1 \<Longrightarrow> \<not> Expired item now2 \<Longrightarrow>
     fst (IncrementInt64 k n now1 c) = Inr (v + n)
   \<and> fst (DecrementInt64 k n now2 (snd (IncrementInt64 k n now1 c))) = Inr v
   \<and> Load k (snd (DecrementInt64 k n now2 (snd (IncrementInt64 k n now1 c)))) = Some item"
  by (simp add: IncrementInt64_def DecrementInt64_def Load_safeStore Let_def Expired_def
           split: if_splits)

theorem IncrementInt64_DecrementInt64_roundtrip_witness:
  "fst (IncrementInt64 ''a'' 5 120 (Set ''a'' (Int64 7) 50 100 (New 0 0 :: unit cache))) = Inr 12
   \<and> fst (DecrementInt64 ''a'' 5 121
        (snd (IncrementInt64 ''a'' 5 120 (Set ''a'' (Int64 7) 50 100 (New 0 0 :: unit cache)))))
       = Inr 7
   \<and> Load ''a'' (snd (DecrementInt64 ''a'' 5 121
        (snd (IncrementInt64 ''a'' 5 120 (Set ''a'' (Int64 7) 50 100 (New 0 0 :: unit cache))))))
       = Some \<lparr>Object = Int64 7, Expiration = 150\<rparr>"
proof -
  let ?c = "Set ''a'' (Int64 7) 50 100 (New 0 0 :: unit cache)"
  let ?item = "\<lparr>Object = Int64 7 :: unit obj, Expiration = 150\<rparr>"
  have l: "Load ''a'' ?c = Some ?item" by (simp add: cache_eval)
  have o: "Object ?item = Int64 7" by simp
  have e1: "\<not> Expired ?item 120" and e2: "\<not> Expired ?item 121" by (simp_all add: Expired_def)
  from IncrementInt64_DecrementInt64_roundtrip [OF l o e1 e2, of 5] show ?thesis by simp
qed

section \<open>The counter\<close>

text \<open>
  Claim C8. The counter read by \<open>ItemCount\<close> goes up by one on every insertion path
  (\<open>safeStore\<close>, \<open>Set\<close>, \<open>set\<close>, a successful \<open>Add\<close> or \<open>Replace\<close>), also when \<open>Set\<close>
  overwrites a key that is present, where the number of stored entries stays the same. It
  goes down by one on every deletion path: \<open>safeDelete\<close>, \<open>delete\<close> and \<open>Delete\<close> on any
  key, once per expired entry in \<open>DeleteExpired\<close> and once per entry in \<open>Flush\<close>. In
  particular, with no hook registered, \<open>Delete\<close> of a key that is not present changes
  nothing but the counter, which it decrements. The counter is a \<^verbatim>\<open>uint32\<close>: one more and
  one less are taken modulo \<open>2 ^ 32\<close>.
\<close>

theorem counter_moves_on_every_path:
  "counter (safeStore k v c) = counter c + 1
   \<and> counter (Set k x d now c) = counter c + 1
   \<and> counter (set_unexported k x d now c) = counter c + 1
   \<and> counter (snd (Add k x d now1 now2 c))
       = (if fst (Add k x d now1 now2 c) = None then counter c + 1 else counter c)
   \<and> counter (snd (Replace k x d now1 now2 c))
       = (if fst (Replace k x d now1 now2 c) = None then counter c + 1 else counter c)
   \<and> (Load k c = Some item \<longrightarrow>
         ItemCount (Set k x d now c) = ItemCount c + 1
         \<and> length (DAList.impl_of (items (Set k x d now c))) = length (DAList.impl_of (items c)))
   \<and> counter (safeDelete k c) = counter c - 1
   \<and> counter (snd (delete k c)) = counter c - 1
   \<and> (case Delete k c of Inl p \<Rightarrow> False | Inr c' \<Rightarrow> counter c' = counter c - 1)
   \<and> (onEvicted c = None \<and> Load k c = None \<longrightarrow>
         Delete k c = Inr (c\<lparr>counter := counter c - 1\<rparr>))
   \<and> (case DeleteExpired now c of Inl p \<Rightarrow> False
       | Inr c' \<Rightarrow> counter c' = counter c
           - of_nat (length (filter (\<lambda>(k, v). past_expiry now v) (DAList.impl_of (items c)))))
   \<and> (case Flush c of Inl p \<Rightarrow> False
       | Inr c' \<Rightarrow> counter c' = counter c - of_nat (length (DAList.impl_of (items c))))"
proof -
  have store: "counter (safeStore k v c) = counter c + 1"
    and st: "counter (Set k x d now c) = counter c + 1"
    and st': "counter (set_unexported k x d now c) = counter c + 1"
    by (simp_all add: safeStore_def Set_def set_unexported_def Let_def)
  have add: "counter (snd (Add k x d now1 now2 c))
       = (if fst (Add k x d now1 now2 c) = None then counter c + 1 else counter c)"
    by (simp add: Add_def set_unexported_def safeStore_def Let_def split_def)
  have rep: "counter (snd (Replace k x d now1 now2 c))
       = (if fst (Replace k x d now1 now2 c) = None then counter c + 1 else counter c)"
    by (simp add: Replace_def set_unexported_def safeStore_def Let_def split_def)
  have over: "Load k c = Some item \<longrightarrow>
         ItemCount (Set k x d now c) = ItemCount c + 1
         \<and> length (DAList.impl_of (items (Set k x d now c))) = length (DAList.impl_of (items c))"
  proof
    assume "Load k c = Some item"
    then have "k \<in> fst ` set (DAList.impl_of (items c))"
      by (auto simp: Load_def DAList.lookup.rep_eq dest: map_of_SomeD intro: rev_image_eqI)
    then show "ItemCount (Set k x d now c) = ItemCount c + 1
         \<and> length (DAList.impl_of (items (Set k x d now c))) = length (DAList.impl_of (items c))"
      by (simp add: ItemCount_def Set_def safeStore_def Let_def DAList.update.rep_eq
                    length_update_present)
  qed
  have del: "counter (safeDelete k c) = counter c - 1"
    and del': "counter (snd (delete k c)) = counter c - 1"
    by (simp_all add: safeDelete_def delete_def split: option.split)
  have Del: "(case Delete k c of Inl p \<Rightarrow> False | Inr c' \<Rightarrow> counter c' = counter c - 1)"
    by (simp add: Delete_def delete_def call_onEvicted_def safeDelete_def split: option.split)
  have absent: "onEvicted c = None \<and> Load k c = None \<longrightarrow>
         Delete k c = Inr (c\<lparr>counter := counter c - 1\<rparr>)"
  proof
    assume a: "onEvicted c = None \<and> Load k c = None"
    then have "k \<notin> fst ` set (DAList.impl_of (items c))"
      by (simp add: Load_def DAList.lookup.rep_eq map_of_eq_None_iff)
    then have "DAList.delete k (items c) = items c"
      by (simp add: DAList.alist_eq_iff DAList.delete.rep_eq)
    then show "Delete k c = Inr (c\<lparr>counter := counter c - 1\<rparr>)"
      using a by (simp add: Delete_def delete_def safeDelete_def)
  qed
  have sweep: "(case DeleteExpired now c of Inl p \<Rightarrow> False
       | Inr c' \<Rightarrow> counter c' = counter c
           - of_nat (length (filter (\<lambda>(k, v). past_expiry now v) (DAList.impl_of (items c)))))"
    using DeleteExpired_result [of now c] by auto
  have flush: "(case Flush c of Inl p \<Rightarrow> False
       | Inr c' \<Rightarrow> counter c' = counter c - of_nat (length (DAList.impl_of (items c))))"
    by (simp add: Flush_result)
  from store st st' add rep over del del' Del absent sweep flush show ?thesis by blast
qed

theorem counter_moves_on_every_path_witness:
  "Delete ''zz'' (New 0 0 :: unit cache) = Inr ((New 0 0)\<lparr>counter := 4294967295\<rparr>)
   \<and> ItemCount (Set ''a'' (Int64 8) NoExpiration 101
        (Set ''a'' (Int64 7) 50 100 (New 0 0 :: unit cache))) = 2
   \<and> length (DAList.impl_of (items (Set ''a'' (Int64 8) NoExpiration 101
        (Set ''a'' (Int64 7) 50 100 (New 0 0 :: unit cache))))) = 1"
proof -
  let ?c0 = "New 0 0 :: unit cache"
  let ?c1 = "Set ''a'' (Int64 7) 50 100 ?c0"
  let ?item = "\<lparr>Object = Int64 7 :: unit obj, Expiration = 150\<rparr>"
  have h: "onEvicted ?c0 = None \<and> Load ''zz'' ?c0 = None" by (simp add: cache_eval)
  have l: "Load ''a'' ?c1 = Some ?item" by (simp add: cache_eval)
  have n: "ItemCount ?c1 = 1" "length (DAList.impl_of (items ?c1)) = 1" "counter ?c0 = 0"
    by (simp_all add: ItemCount_def cache_eval)
  from counter_moves_on_every_path [where k = "''zz''" and c = ?c0] h n
  have d: "Delete ''zz'' ?c0 = Inr (?c0\<lparr>counter := 4294967295\<rparr>)" by simp
  from counter_moves_on_every_path
         [where k = "''a''" and c = ?c1 and x = "Int64 8" and d = NoExpiration and now = 101
            and item = ?item]
       l n
  have "ItemCount (Set ''a'' (Int64 8) NoExpiration 101 ?c1) = 2
        \<and> length (DAList.impl_of (items (Set ''a'' (Int64 8) NoExpiration 101 ?c1))) = 1"
    by simp
  with d show ?thesis by simp
qed

text \<open>
  Claim C10. Every successful call of a generic or typed increment or decrement method
  also increments the counter by one, since it stores through \<open>safeStore\<close>, and adds no key
  to the store. So a sequence of \<open>n\<close> successful calls raises \<open>ItemCount\<close> by \<open>n\<close> (modulo
  \<open>2 ^ 32\<close>) while the keys of the store stay the same.
\<close>

theorem mutation_increments_counter:
  "(call_mutation fp dir m k now c = (Inr r, c1) \<longrightarrow>
      ItemCount c1 = ItemCount c + 1 \<and> (\<forall>k'. (Load k' c1 = None) = (Load k' c = None)))
   \<and> (call_mutations fp calls c = Some c' \<longrightarrow>
      ItemCount c' = ItemCount c + of_nat (length calls)
      \<and> (\<forall>k'. (Load k' c' = None) = (Load k' c = None)))"
  using call_mutation_counter [of fp dir m k now c r c1] call_mutations_counter [of fp calls c c']
  by (simp add: ItemCount_def)

theorem mutation_increments_counter_witness:
  "ItemCount (Set ''a'' (Int64 7) 50 100 (New 0 0 :: unit cache)) = 1
   \<and> map_option ItemCount
        (call_mutations fpu0
           [(Up, OfInt64 5, ''a'', 120), (Up, Generic 1, ''a'', 121), (Down, OfInt64 2, ''a'', 122)]
           (Set ''a'' (Int64 7) 50 100 (New 0 0 :: unit cache))) = Some 4
   \<and> map_option (Load ''a'')
        (call_mutations fpu0
           [(Up, OfInt64 5, ''a'', 120), (Up, Generic 1, ''a'', 121), (Down, OfInt64 2, ''a'', 122)]
           (Set ''a'' (Int64 7) 50 100 (New 0 0 :: unit cache)))
       = Some (Some \<lparr>Object = Int64 11, Expiration = 150\<rparr>)"
proof -
  let ?c = "Set ''a'' (Int64 7) 50 100 (New 0 0 :: unit cache)"
  let ?calls = "[(Up, OfInt64 5, ''a'', 120), (Up, Generic 1, ''a'', 121), (Down, OfInt64 2, ''a'', 122)]"
  have n: "ItemCount ?c = 1" by (simp add: ItemCount_def cache_eval)
  have "\<exists>c'. call_mutations fpu0 ?calls ?c = Some c'
          \<and> Load ''a'' c' = Some \<lparr>Object = Int64 11, Expiration = 150\<rparr>"
    by (simp add: mutation_eval cache_eval)
  then obtain c' where r: "call_mutations fpu0 ?calls ?c = Some c'"
    and l: "Load ''a'' c' = Some \<lparr>Object = Int64 11, Expiration = 150\<rparr>" by blast
  from mutation_increments_counter [of fpu0 Up "Generic 0" "''a''" 0 ?c None ?c ?calls c'] r n
  have "ItemCount c' = 4" by simp
  with r l n show ?thesis by simp
qed

section \<open>The eviction hook\<close>

text \<open>
  Claim C9. With a hook registered, \<open>Delete\<close> of a key that is present removes the key
  and calls the hook exactly once, with that key and the value stored before. \<open>Delete\<close> of
  an absent key, and \<open>Delete\<close> with no hook registered, call no hook. \<open>Set\<close> calls no hook,
  whether or not it overwrites. \<open>Flush\<close> removes every entry and calls no hook.
\<close>

theorem eviction_hook_calls:
  "(onEvicted c = Some h \<and> Load k c = Some item \<longrightarrow>
      Delete k c
        = Inr ((safeDelete k c)\<lparr>evictions := evictions c @ [(h, k, Some (Object item))]\<rparr>))
   \<and> (Load k c = None \<longrightarrow> Delete k c = Inr (safeDelete k c))
   \<and> (onEvicted c = None \<longrightarrow> Delete k c = Inr (safeDelete k c))
   \<and> evictions (safeDelete k c) = evictions c
   \<and> Load k (safeDelete k c) = None
   \<and> evictions (Set k x d now c) = evictions c
   \<and> (case Flush c of Inl p \<Rightarrow> False
       | Inr c' \<Rightarrow> evictions c' = evictions c \<and> items c' = DAList.empty
                  \<and> onEvicted c' = onEvicted c)"
  by (auto simp: Delete_def delete_def call_onEvicted_def safeDelete_def Set_def safeStore_def
                 Let_def Flush_result Load_def)

theorem eviction_hook_calls_witness:
  "(case Delete ''a'' (OnEvicted (Some 1) (Set ''a'' (Int64 7) 50 100 (New 0 0 :: unit cache))) of
      Inl p \<Rightarrow> False
    | Inr c' \<Rightarrow> evictions c' = [(1, ''a'', Some (Int64 7))] \<and> Load ''a'' c' = None)
   \<and> (case Delete ''b'' (OnEvicted (Some 1) (Set ''a'' (Int64 7) 50 100 (New 0 0 :: unit cache))) of
      Inl p \<Rightarrow> False
    | Inr c' \<Rightarrow> evictions c' = [])"
proof -
  let ?c = "OnEvicted (Some 1) (Set ''a'' (Int64 7) 50 100 (New 0 0 :: unit cache))"
  let ?item = "\<lparr>Object = Int64 7 :: unit obj, Expiration = 150\<rparr>"
  have h: "onEvicted ?c = Some 1 \<and> Load ''a'' ?c = Some ?item"
    and b: "Load ''b'' ?c = None"
    and e: "evictions ?c = []"
    by (simp_all add: OnEvicted_def cache_eval)
  from eviction_hook_calls [where c = ?c and h = 1 and k = "''a''" and item = ?item] h e
  have a: "Delete ''a'' ?c = Inr ((safeDelete ''a'' ?c)\<lparr>evictions := [(1, ''a'', Some (Int64 7))]\<rparr>)"
    and a': "Load ''a'' (safeDelete ''a'' ?c) = None"
    by simp_all
  from eviction_hook_calls [where c = ?c and k = "''b''"] b e
  have "Delete ''b'' ?c = Inr (safeDelete ''b'' ?c)" "evictions (safeDelete ''b'' ?c) = []"
    by simp_all
  with a a' show ?thesis by (simp add: Load_def)
qed

section \<open>The sweep\<close>

text \<open>
  Claim C4, as amended. \<open>DeleteExpired\<close> at time \<open>now\<close> always returns, and afterwards the
  store holds exactly the entries it held before whose expiry is not strictly past: no
  entry with a positive expiry timestamp strictly less than \<open>now\<close> remains, and every other
  entry, in particular one whose expiry timestamp equals \<open>now\<close>, is still stored unchanged.
\<close>

theorem DeleteExpired_removes_strictly_past:
  "\<exists>c'. DeleteExpired now c = Inr c'
     \<and> (\<forall>k. Load k c' = (case Load k c of None \<Rightarrow> None
                          | Some v \<Rightarrow> if past_expiry now v then None else Some v))
     \<and> (\<forall>k v. Load k c' = Some v \<longrightarrow> \<not> (0 < Expiration v \<and> Expiration v < now))
     \<and> (\<forall>k v. Load k c = Some v \<and> Expiration v = now \<longrightarrow> Load k c' = Some v)"
proof -
  from DeleteExpired_result [of now c] obtain c' where
    r: "DeleteExpired now c = Inr c'"
    and i: "DAList.impl_of (items c')
              = filter (\<lambda>(k, v). \<not> past_expiry now v) (DAList.impl_of (items c))"
    by blast
  have l: "Load k c' = (case Load k c of None \<Rightarrow> None
                          | Some v \<Rightarrow> if past_expiry now v then None else Some v)" for k
    using map_of_filter_present [of "DAList.impl_of (items c)" "\<lambda>(k, v). \<not> past_expiry now v" k]
    by (simp add: Load_def DAList.lookup.rep_eq i split: option.split)
  have "\<forall>k v. Load k c' = Some v \<longrightarrow> \<not> (0 < Expiration v \<and> Expiration v < now)"
    by (auto simp: l past_expiry_def split: option.splits if_splits)
  moreover have "\<forall>k v. Load k c = Some v \<and> Expiration v = now \<longrightarrow> Load k c' = Some v"
    by (auto simp: l past_expiry_def)
  ultimately show ?thesis using r l by blast
qed

theorem DeleteExpired_removes_strictly_past_witness:
  "(case DeleteExpired 155
            (Set ''b'' (Int64 8) 60 100 (Set ''a'' (Int64 7) 50 100 (New 0 0 :: unit cache))) of
      Inl p \<Rightarrow> False
    | Inr c' \<Rightarrow> Load ''a'' c' = None
                \<and> Load ''b'' c' = Some \<lparr>Object = Int64 8, Expiration = 160\<rparr>)"
proof -
  let ?c = "Set ''b'' (Int64 8) 60 100 (Set ''a'' (Int64 7) 50 100 (New 0 0 :: unit cache))"
  have l: "Load ''a'' ?c = Some \<lparr>Object = Int64 7, Expiration = 150\<rparr>"
    "Load ''b'' ?c = Some \<lparr>Object = Int64 8, Expiration = 160\<rparr>"
    by (simp_all add: cache_eval)
  from DeleteExpired_removes_strictly_past [of 155 ?c] obtain c' where
    r: "DeleteExpired 155 ?c = Inr c'"
    and k: "\<forall>k. Load k c' = (case Load k ?c of None \<Rightarrow> None
                          | Some v \<Rightarrow> if past_expiry 155 v then None else Some v)"
    by blast
  from k l have "Load ''a'' c' = None" "Load ''b'' c' = Some \<lparr>Object = Int64 8, Expiration = 160\<rparr>"
    by (simp_all add: past_expiry_def)
  with r show ?thesis by simp
qed

text \<open>
  The claim as stated has no entry with an expiry timestamp less than or equal to the
  current time left. An entry whose expiry timestamp is the time of the sweep is kept by
  the sweep; \<open>Items\<close> at that time returns no mapping, and its visitor, run on a made map,
  puts the entry into the map.
\<close>

theorem DeleteExpired_keeps_entry_at_expiry_instant:
  "DeleteExpired 150 (Set ''a'' (Int64 7) 50 100 (New 0 0 :: unit cache))
     = Inr (Set ''a'' (Int64 7) 50 100 (New 0 0))
   \<and> Load ''a'' (Set ''a'' (Int64 7) 50 100 (New 0 0 :: unit cache))
     = Some \<lparr>Object = Int64 7, Expiration = 150\<rparr>
   \<and> Items 150 (Set ''a'' (Int64 7) 50 100 (New 0 0 :: unit cache))
     = Inl AssignmentToEntryInNilMap
   \<and> Range_sync (Items_visit 150)
        (DAList.impl_of (items (Set ''a'' (Int64 7) 50 100 (New 0 0 :: unit cache))))
        (Some Map.empty)
     = Inr (Some [''a'' \<mapsto> \<lparr>Object = Int64 7, Expiration = 150\<rparr>])"
  by (simp add: scan_eval cache_eval)

section \<open>Items\<close>

text \<open>
  Claim C1, as amended. The scan of \<open>Items\<close> treats an entry as live when its expiration
  is unset (not positive) or not earlier than \<open>now\<close>, so an entry is live at its exact
  expiry instant, and skips exactly the expired entries that have not been swept: run on a
  made map, the scan returns the map of exactly the live entries. When the store holds no
  live entry, \<open>Items\<close> returns the \<^verbatim>\<open>nil\<close> map, which is empty. \<open>Items\<close> has no write to the
  store and so removes no entry.
\<close>

theorem Items_scan_selects_live:
  "(list_all (\<lambda>(k, v). past_expiry now v) (DAList.impl_of (items c)) \<longrightarrow> Items now c = Inr None)
   \<and> (\<exists>m. Range_sync (Items_visit now) (DAList.impl_of (items c)) (Some Map.empty) = Inr (Some m)
        \<and> (\<forall>k. m k = (case Load k c of None \<Rightarrow> None
                        | Some v \<Rightarrow> if past_expiry now v then None else Some v)))"
proof -
  let ?xs = "DAList.impl_of (items c)"
  let ?live = "filter (\<lambda>(k, v). \<not> past_expiry now v) ?xs"
  have a: "list_all (\<lambda>(k, v). past_expiry now v) ?xs \<longrightarrow> Items now c = Inr None"
    by (simp add: Items_def Range_Items_nil)
  have d: "distinct (map fst ?live)" by (simp add: distinct_map_fst_filter)
  have "map_of (rev ?live) k = (case Load k c of None \<Rightarrow> None
                        | Some v \<Rightarrow> if past_expiry now v then None else Some v)" for k
    using map_of_filter_present [of ?xs "\<lambda>(k, v). \<not> past_expiry now v" k]
    by (simp add: map_of_rev_distinct [OF d] Load_def DAList.lookup.rep_eq split: option.split)
  then show ?thesis using a by (simp add: Range_Items_made)
qed

theorem Items_scan_selects_live_witness:
  "Items 151 (Set ''a'' (Int64 7) 50 100 (New 0 0 :: unit cache)) = Inr None
   \<and> (\<exists>m. Range_sync (Items_visit 155)
              (DAList.impl_of (items (Set ''b'' (Int64 8) 60 100
                 (Set ''a'' (Int64 7) 50 100 (New 0 0 :: unit cache)))))
              (Some Map.empty) = Inr (Some m)
          \<and> m ''a'' = None \<and> m ''b'' = Some \<lparr>Object = Int64 8, Expiration = 160\<rparr>)"
proof -
  let ?c1 = "Set ''a'' (Int64 7) 50 100 (New 0 0 :: unit cache)"
  let ?c2 = "Set ''b'' (Int64 8) 60 100 ?c1"
  have h: "list_all (\<lambda>(k, v). past_expiry 151 v) (DAList.impl_of (items ?c1))"
    by (simp add: cache_eval past_expiry_def)
  from Items_scan_selects_live [of 151 ?c1] h have a: "Items 151 ?c1 = Inr None" by simp
  have l: "Load ''a'' ?c2 = Some \<lparr>Object = Int64 7, Expiration = 150\<rparr>"
    "Load ''b'' ?c2 = Some \<lparr>Object = Int64 8, Expiration = 160\<rparr>"
    by (simp_all add: cache_eval)
  from Items_scan_selects_live [of 155 ?c2] obtain m where
    r: "Range_sync (Items_visit 155) (DAList.impl_of (items ?c2)) (Some Map.empty) = Inr (Some m)"
    and k: "\<forall>k. m k = (case Load k ?c2 of None \<Rightarrow> None
                        | Some v \<Rightarrow> if past_expiry 155 v then None else Some v)"
    by blast
  from k l have "m ''a'' = None" "m ''b'' = Some \<lparr>Object = Int64 8, Expiration = 160\<rparr>"
    by (simp_all add: past_expiry_def)
  with r a show ?thesis by blast
qed

text \<open>
  The claim as stated counts as live only an entry whose expiration is unset or strictly in
  the future, and has \<open>Items\<close> return the mapping of the live entries. On the store whose
  single entry expires exactly at the time of the call, the visitor of \<open>Items\<close> does not
  skip the entry, and \<open>Items\<close> returns no mapping.
\<close>

theorem Items_selects_entry_at_expiry_instant:
  "Load ''b'' (Set ''b'' (Int64 8) 60 200 (New 0 0 :: unit cache))
     = Some \<lparr>Object = Int64 8, Expiration = 260\<rparr>
   \<and> Items 260 (Set ''b'' (Int64 8) 60 200 (New 0 0 :: unit cache)) = Inl AssignmentToEntryInNilMap
   \<and> Items_visit 260 ''b'' \<lparr>Object = Int64 8 :: unit obj, Expiration = 260\<rparr> (Some Map.empty)
     = Inr (Some [''b'' \<mapsto> \<lparr>Object = Int64 8, Expiration = 260\<rparr>])"
  by (simp add: scan_eval cache_eval)

section \<open>Panics\<close>

text \<open>
  Claim C2. The claim says that no public operation can panic, \<open>Items\<close> on a non-empty
  store included. On the cache that holds the single never-expiring entry \<open>a\<close>, \<open>Items\<close>
  panics: its visitor reaches \<^verbatim>\<open>m[k.(string)] = v.(Item)\<close> with the \<^verbatim>\<open>nil\<close> map \<^verbatim>\<open>m\<close>.
\<close>

theorem Items_panics_on_live_entry:
  "Items 200 (Set ''a'' (Int64 7) NoExpiration 100 (New 0 0 :: unit cache))
     = Inl AssignmentToEntryInNilMap"
  by (simp add: Items_def Items_visit_def map_assign_def cache_eval)

end
